theory Spec2Isabelle
  imports Complex_Main
begin

section \<open>The FLIP simulator of Ariel (src/sim/flip.cpp)\<close>

text \<open>
  A shallow embedding of the member functions of class \<open>flipsim\<close>. Conventions used
  throughout:
  \<^item> C++ \<open>float\<close> is idealised as \<open>real\<close>: every statement below is about the data flow
    and the formulas of the code, not about rounding;
  \<^item> a float division by a value that is zero on a state the constructor produces has
    its own result type (\<open>fvalue\<close>); the divisor \<open>maxd\<close> is positive on every grid
    that has a cell;
  \<^item> \<open>unsigned int\<close> values are natural numbers; where the source subtracts below zero
    the wrap-around modulo \<open>2^32\<close> is written out (\<open>usub\<close>);
  \<^item> \<open>tbb::parallel_for\<close> over an index range is modelled by the sequential loop over the
    same range in increasing order;
  \<^item> the particle fields \<open>p, u, n, t, mass, density, type, invalid, temp\<close> carry the
    prefix \<open>p_\<close>, the grids \<open>A, P, D, L\<close> of the MAC grid the suffix \<open>_grid\<close>;
  \<^item> the collaborators whose code is not part of flip.cpp (scene, particle grid, the
    grid-to-particle interpolation, the pressure solver, the resampler) are the fields
    of the record \<open>collab\<close> and every theorem holds for all of them.
\<close>

subsection \<open>Vectors (glm::vec3)\<close>

datatype vec3 = Vec3 (vx: real) (vy: real) (vz: real)

definition vec3_of :: "real \<Rightarrow> vec3" where
  "vec3_of r = Vec3 r r r"

definition vadd :: "vec3 \<Rightarrow> vec3 \<Rightarrow> vec3" where
  "vadd a b = Vec3 (vx a + vx b) (vy a + vy b) (vz a + vz b)"

definition vsub :: "vec3 \<Rightarrow> vec3 \<Rightarrow> vec3" where
  "vsub a b = Vec3 (vx a - vx b) (vy a - vy b) (vz a - vz b)"

definition vscale :: "vec3 \<Rightarrow> real \<Rightarrow> vec3" where
  "vscale a c = Vec3 (vx a * c) (vy a * c) (vz a * c)"

definition smul :: "real \<Rightarrow> vec3 \<Rightarrow> vec3" where
  "smul c a = Vec3 (c * vx a) (c * vy a) (c * vz a)"

definition vdiv :: "vec3 \<Rightarrow> real \<Rightarrow> vec3" where
  "vdiv a c = Vec3 (vx a / c) (vy a / c) (vz a / c)"

definition dot :: "vec3 \<Rightarrow> vec3 \<Rightarrow> real" where
  "dot a b = vx a * vx b + vy a * vy b + vz a * vz b"

definition vlength :: "vec3 \<Rightarrow> real" where
  "vlength a = sqrt (dot a a)"

definition vnormalize :: "vec3 \<Rightarrow> vec3" where
  "vnormalize a = vdiv a (vlength a)"

definition vmax :: "vec3 \<Rightarrow> vec3 \<Rightarrow> vec3" where
  "vmax a b = Vec3 (max (vx a) (vx b)) (max (vy a) (vy b)) (max (vz a) (vz b))"

definition vmin :: "vec3 \<Rightarrow> vec3 \<Rightarrow> vec3" where
  "vmin a b = Vec3 (min (vx a) (vx b)) (min (vy a) (vy b)) (min (vz a) (vz b))"

subsection \<open>Particles, grids and the simulator state\<close>

datatype geomtype = FLUID | SOLID | AIR

text \<open>
  The result of a float division whose divisor can be zero: \<open>x / 0\<close> is an infinity or
  not a number, where the quotient of reals would be 0. The density of a particle is
  the one such value of flip.cpp (\<open>max_density\<close> is 0 until init has run).
\<close>

datatype fvalue = Finite real | PosInf | NegInf | NaN

definition fdiv :: "real \<Rightarrow> real \<Rightarrow> fvalue" where
  "fdiv a b = (if b \<noteq> 0 then Finite (a / b)
               else if 0 < a then PosInf else if a < 0 then NegInf else NaN)"

record particle =
  p_p :: vec3
  p_u :: vec3
  p_n :: vec3
  p_t :: vec3
  p_mass :: real
  p_density :: fvalue
  p_type :: geomtype
  p_invalid :: bool
  p_temp :: bool

text \<open>
  Modelled from the spec: the grid classes (floatgrid, intgrid) are declared outside
  flip.cpp. A grid is a total map from cell indices to values; \<open>getCell\<close> reads a cell,
  \<open>setCell\<close> overwrites one cell (section 4.1, \<open>get(i,j,k)\<close> and \<open>set(i,j,k,v)\<close>), and a
  fresh grid holds its background value everywhere. The overload of \<open>getCell\<close> on a
  vec3 truncates each coordinate to its cell index.
\<close>

type_synonym 'a grid = "nat \<times> nat \<times> nat \<Rightarrow> 'a"

definition getCell :: "'a grid \<Rightarrow> nat \<Rightarrow> nat \<Rightarrow> nat \<Rightarrow> 'a" where
  "getCell g i j k = g (i, j, k)"

definition setCell :: "'a grid \<Rightarrow> nat \<Rightarrow> nat \<Rightarrow> nat \<Rightarrow> 'a \<Rightarrow> 'a grid" where
  "setCell g i j k v = g((i, j, k) := v)"

definition newgrid :: "'a \<Rightarrow> 'a grid" where
  "newgrid background = (\<lambda>c. background)"

definition getCellv :: "'a grid \<Rightarrow> vec3 \<Rightarrow> 'a" where
  "getCellv g v = getCell g (nat \<lfloor>vx v\<rfloor>) (nat \<lfloor>vy v\<rfloor>) (nat \<lfloor>vz v\<rfloor>)"

text \<open>The scene's level sets are read by \<open>isCellFluid\<close> at signed indices.\<close>

type_synonym levelset = "int \<times> int \<times> int \<Rightarrow> real"

record macgrid =
  u_x :: "real grid"
  u_y :: "real grid"
  u_z :: "real grid"
  A_grid :: "geomtype grid"
  P_grid :: "real grid"
  D_grid :: "real grid"
  L_grid :: "real grid"

record ('sc, 'pg) flipsim =
  dimensions :: vec3
  particles :: "particle list"
  mgrid :: macgrid
  mgrid_previous :: macgrid
  pgrid :: 'pg
  scene :: 'sc
  frame :: nat
  stepsize :: real
  subcell :: int
  density :: real
  max_density :: real
  densitythreshold :: real
  picflipratio :: real
  verbose :: bool

text \<open>
  The collaborators of flip.cpp. Each takes the objects the source passes to it and
  returns the ones it may change.
\<close>

record ('sc, 'pg) collab =
  interpolateVelocity :: "vec3 \<Rightarrow> macgrid \<Rightarrow> vec3"
  getCellNeighbors :: "'pg \<Rightarrow> vec3 \<Rightarrow> vec3 \<Rightarrow> nat list"
  sort_pgrid :: "'pg \<Rightarrow> particle list \<Rightarrow> 'pg"
  markCellTypes :: "'pg \<Rightarrow> particle list \<Rightarrow> geomtype grid \<Rightarrow> real \<Rightarrow> geomtype grid"
  buildSDF :: "'pg \<Rightarrow> macgrid \<Rightarrow> real \<Rightarrow> macgrid"
  splatParticlesToMACGrid :: "'pg \<Rightarrow> particle list \<Rightarrow> macgrid \<Rightarrow> macgrid"
  enforceBoundaryVelocity :: "macgrid \<Rightarrow> macgrid"
  solve :: "macgrid \<Rightarrow> int \<Rightarrow> bool \<Rightarrow> macgrid"
  resampleParticles ::
    "'pg \<Rightarrow> particle list \<Rightarrow> real \<Rightarrow> real \<Rightarrow> vec3 \<Rightarrow> 'pg \<times> particle list"
  smooth :: "real \<Rightarrow> real \<Rightarrow> real"
  buildLevelSets :: "'sc \<Rightarrow> nat \<Rightarrow> 'sc"
  generateParticles ::
    "'sc \<Rightarrow> particle list \<Rightarrow> vec3 \<Rightarrow> real \<Rightarrow> 'pg \<Rightarrow> nat \<Rightarrow> 'pg \<times> particle list"
  projectPointsToSolidSurface :: "'sc \<Rightarrow> vec3 list \<Rightarrow> vec3 list"
  exportParticles ::
    "'sc \<Rightarrow> particle list \<Rightarrow> real \<Rightarrow> nat \<Rightarrow> bool \<Rightarrow> bool \<Rightarrow> bool \<Rightarrow> 'sc"
  getLiquidLevelSet :: "'sc \<Rightarrow> levelset"
  getSolidLevelSet :: "'sc \<Rightarrow> levelset"

text \<open>The constructor: the particle grid and the two MAC grids come from outside.\<close>

definition flipsim_new ::
  "vec3 \<Rightarrow> 'sc \<Rightarrow> real \<Rightarrow> bool \<Rightarrow> 'pg \<Rightarrow> macgrid \<Rightarrow> macgrid \<Rightarrow> ('sc, 'pg) flipsim" where
  "flipsim_new maxres s dens verb pg mg mgp =
     \<lparr> dimensions = maxres, particles = [], mgrid = mg, mgrid_previous = mgp,
       pgrid = pg, scene = s, frame = 0, stepsize = 5 / 1000, subcell = 1,
       density = dens, max_density = 0, densitythreshold = 4 / 100,
       picflipratio = 95 / 100, verbose = verb \<rparr>"

text \<open>\<open>(unsigned int)dimensions.x\<close> and the largest dimension \<open>maxd\<close>.\<close>

definition dimx :: "('sc, 'pg) flipsim \<Rightarrow> nat" where
  "dimx s = nat \<lfloor>vx (dimensions s)\<rfloor>"

definition dimy :: "('sc, 'pg) flipsim \<Rightarrow> nat" where
  "dimy s = nat \<lfloor>vy (dimensions s)\<rfloor>"

definition dimz :: "('sc, 'pg) flipsim \<Rightarrow> nat" where
  "dimz s = nat \<lfloor>vz (dimensions s)\<rfloor>"

definition maxd :: "('sc, 'pg) flipsim \<Rightarrow> real" where
  "maxd s = max (max (vx (dimensions s)) (vz (dimensions s))) (vy (dimensions s))"

subsection \<open>applyExternalForces\<close>

definition gravity :: vec3 where
  "gravity = Vec3 0 (- (98 / 10)) 0"

definition applyExternalForces :: "('sc, 'pg) flipsim \<Rightarrow> ('sc, 'pg) flipsim" where
  "applyExternalForces s =
     s\<lparr>particles :=
         map (\<lambda>q. q\<lparr>p_u := vadd (p_u q) (vscale gravity (stepsize s))\<rparr>) (particles s)\<rparr>"

subsection \<open>isCellFluid\<close>

definition isCellFluid ::
  "('sc, 'pg) collab \<Rightarrow> ('sc, 'pg) flipsim \<Rightarrow> int \<Rightarrow> int \<Rightarrow> int \<Rightarrow> bool" where
  "isCellFluid env s x y z =
     (if getLiquidLevelSet env (scene s) (x, y, z) < 0 \<and>
         0 \<le> getSolidLevelSet env (scene s) (x, y, z)
      then True else False)"

subsection \<open>Loops over grid cells\<close>

text \<open>
  The nest \<open>for i < nx, for j < ny, for k < nz\<close> of the source, threading the state it
  mutates; \<open>cells3\<close> lists the cells in the order the nest visits them.
\<close>

definition for3 :: "nat \<Rightarrow> nat \<Rightarrow> nat \<Rightarrow> (nat \<Rightarrow> nat \<Rightarrow> nat \<Rightarrow> 's \<Rightarrow> 's) \<Rightarrow> 's \<Rightarrow> 's" where
  "for3 nx ny nz body =
     fold (\<lambda>i. fold (\<lambda>j. fold (\<lambda>k. body i j k) [0..<nz]) [0..<ny]) [0..<nx]"

definition cells3 :: "nat \<Rightarrow> nat \<Rightarrow> nat \<Rightarrow> (nat \<times> nat \<times> nat) list" where
  "cells3 nx ny nz = List.product [0..<nx] (List.product [0..<ny] [0..<nz])"

subsection \<open>storePreviousGrid, subtractPreviousGrid, solvePicFlip\<close>

text \<open>
  Each of the three loops of storePreviousGrid and subtractPreviousGrid writes one
  face grid of \<open>mgrid_previous\<close> and reads, besides the cell it writes, only \<open>mgrid\<close>.
\<close>

definition storePreviousGrid :: "('sc, 'pg) flipsim \<Rightarrow> ('sc, 'pg) flipsim" where
  "storePreviousGrid s =
     (let x = dimx s; y = dimy s; z = dimz s;
          px = for3 (x + 1) y z
                 (\<lambda>i j k g. setCell g i j k (getCell (u_x (mgrid s)) i j k))
                 (u_x (mgrid_previous s));
          py = for3 x (y + 1) z
                 (\<lambda>i j k g. setCell g i j k (getCell (u_y (mgrid s)) i j k))
                 (u_y (mgrid_previous s));
          pz = for3 x y (z + 1)
                 (\<lambda>i j k g. setCell g i j k (getCell (u_z (mgrid s)) i j k))
                 (u_z (mgrid_previous s))
      in s\<lparr>mgrid_previous := (mgrid_previous s)\<lparr>u_x := px, u_y := py, u_z := pz\<rparr>\<rparr>)"

definition subtractPreviousGrid :: "('sc, 'pg) flipsim \<Rightarrow> ('sc, 'pg) flipsim" where
  "subtractPreviousGrid s =
     (let x = dimx s; y = dimy s; z = dimz s;
          px = for3 (x + 1) y z
                 (\<lambda>i j k g.
                    let subx = getCell (u_x (mgrid s)) i j k - getCell g i j k
                    in setCell g i j k subx)
                 (u_x (mgrid_previous s));
          py = for3 x (y + 1) z
                 (\<lambda>i j k g.
                    let suby = getCell (u_y (mgrid s)) i j k - getCell g i j k
                    in setCell g i j k suby)
                 (u_y (mgrid_previous s));
          pz = for3 x y (z + 1)
                 (\<lambda>i j k g.
                    let subz = getCell (u_z (mgrid s)) i j k - getCell g i j k
                    in setCell g i j k subz)
                 (u_z (mgrid_previous s))
      in s\<lparr>mgrid_previous := (mgrid_previous s)\<lparr>u_x := px, u_y := py, u_z := pz\<rparr>\<rparr>)"

text \<open>
  Modelled from the spec: splatMACGridToParticles is defined in
  particlegridoperations.inl, outside flip.cpp. Section 4.6, step 15 describes what it
  does for solvePicFlip: for each particle, sample the grid at the particle's position
  and store the sample in \<open>u\<close>. The sampler itself is the collaborator
  \<open>interpolateVelocity\<close>, the function advectParticles calls.
\<close>

definition splatMACGridToParticles ::
  "('sc, 'pg) collab \<Rightarrow> particle list \<Rightarrow> macgrid \<Rightarrow> particle list" where
  "splatMACGridToParticles env ps g =
     map (\<lambda>q. q\<lparr>p_u := interpolateVelocity env (p_p q) g\<rparr>) ps"

definition solvePicFlip :: "('sc, 'pg) collab \<Rightarrow> ('sc, 'pg) flipsim \<Rightarrow> ('sc, 'pg) flipsim" where
  "solvePicFlip env s =
     (let ps1 = map (\<lambda>q. q\<lparr>p_t := p_u q\<rparr>) (particles s);
          ps2 = splatMACGridToParticles env ps1 (mgrid_previous s);
          ps3 = map (\<lambda>q. q\<lparr>p_t := vadd (p_u q) (p_t q)\<rparr>) ps2;
          ps4 = splatMACGridToParticles env ps3 (mgrid s);
          ps5 = map (\<lambda>q. q\<lparr>p_u := vadd (smul (1 - picflipratio s) (p_u q))
                                       (smul (picflipratio s) (p_t q))\<rparr>) ps4
      in s\<lparr>particles := ps5\<rparr>)"

subsection \<open>subtractPressureGradient\<close>

text \<open>
  The three loops of the source hold the same block once per axis; \<open>subcell_pressures\<close>
  is that block: from the level-set values and pressures of the cell of the face
  (\<open>Lf\<close>, \<open>Pf\<close>) and of the cell before it along the axis (\<open>Lb\<close>, \<open>Pb\<close>) it
  computes the pair \<open>(pf, pb)\<close>.
\<close>

definition subcell_pressures :: "int \<Rightarrow> real \<Rightarrow> real \<Rightarrow> real \<Rightarrow> real \<Rightarrow> real \<times> real" where
  "subcell_pressures sub Lf Lb Pf Pb =
     (let pf = Pf; pb = Pb
      in if sub \<noteq> 0 \<and> Lf * Lb < 0
         then (if Lf < 0 then Pf else Lf / min (1 / 1000) Lb * Pb,
               if Lb < 0 then Pb else Lb / min (1 / 1000000) Lf * Pf)
         else (pf, pb))"

definition subtractPressureGradient :: "('sc, 'pg) flipsim \<Rightarrow> ('sc, 'pg) flipsim" where
  "subtractPressureGradient s =
     (let x = dimx s; y = dimy s; z = dimz s;
          h = 1 / maxd s;
          m = mgrid s;
          ux = for3 (x + 1) y z
                 (\<lambda>i j k g.
                    if i > 0 \<and> i < x then
                      (let (pf, pb) = subcell_pressures (subcell s)
                               (getCell (L_grid m) i j k) (getCell (L_grid m) (i - 1) j k)
                               (getCell (P_grid m) i j k) (getCell (P_grid m) (i - 1) j k);
                           xval = getCell g i j k - (pf - pb) / h
                       in setCell g i j k xval)
                    else g)
                 (u_x m);
          uy = for3 x (y + 1) z
                 (\<lambda>i j k g.
                    if j > 0 \<and> j < y then
                      (let (pf, pb) = subcell_pressures (subcell s)
                               (getCell (L_grid m) i j k) (getCell (L_grid m) i (j - 1) k)
                               (getCell (P_grid m) i j k) (getCell (P_grid m) i (j - 1) k);
                           yval = getCell g i j k - (pf - pb) / h
                       in setCell g i j k yval)
                    else g)
                 (u_y m);
          uz = for3 x y (z + 1)
                 (\<lambda>i j k g.
                    if k > 0 \<and> k < z then
                      (let (pf, pb) = subcell_pressures (subcell s)
                               (getCell (L_grid m) i j k) (getCell (L_grid m) i j (k - 1))
                               (getCell (P_grid m) i j k) (getCell (P_grid m) i j (k - 1));
                           zval = getCell g i j k - (pf - pb) / h
                       in setCell g i j k zval)
                    else g)
                 (u_z m)
      in s\<lparr>mgrid := m\<lparr>u_x := ux, u_y := uy, u_z := uz\<rparr>\<rparr>)"

text \<open>The update of one face as the specification words it (section 4.4, step 5).\<close>

definition ghost_pressure :: "real \<Rightarrow> real \<Rightarrow> real \<Rightarrow> real \<Rightarrow> real" where
  "ghost_pressure floor_eps L_air L_liquid P_liquid = L_air / min floor_eps L_liquid * P_liquid"

definition face_update_spec :: "real \<Rightarrow> real \<Rightarrow> real \<Rightarrow> real \<Rightarrow> real \<Rightarrow> real \<Rightarrow> real" where
  "face_update_spec h u L_A L_B P_A P_B =
     (if L_A * L_B < 0
      then (if L_B < 0
            then u - (P_B - ghost_pressure (1 / 1000000) L_A L_B P_B) / h
            else u - (ghost_pressure (1 / 1000) L_B L_A P_A - P_A) / h)
      else u - (P_B - P_A) / h)"

subsection \<open>extrapolateVelocity\<close>

text \<open>Subtraction of \<open>unsigned int\<close> values below \<open>2^32\<close>.\<close>

definition usub :: "nat \<Rightarrow> nat \<Rightarrow> nat" where
  "usub a b = (a + 4294967296 - b) mod 4294967296"

text \<open>
  The three marking loops: each fills, for one axis, the grid \<open>mark[n]\<close> (the face
  touches a FLUID cell) and the grid \<open>wallmark[n]\<close> (each side of the face is a
  SOLID cell or lies outside the grid). Both grids are created with background 0.
\<close>

definition mark_faces_x ::
  "geomtype grid \<Rightarrow> nat \<Rightarrow> nat \<Rightarrow> nat \<Rightarrow> bool grid \<times> bool grid" where
  "mark_faces_x a x y z =
     for3 (x + 1) y z
       (\<lambda>i j k (mk, wm).
          (setCell mk i j k ((i > 0 \<and> getCell a (i - 1) j k = FLUID) \<or>
                             (i < x \<and> getCell a i j k = FLUID)),
           setCell wm i j k ((i \<le> 0 \<or> getCell a (i - 1) j k = SOLID) \<and>
                             (i \<ge> x \<or> getCell a i j k = SOLID))))
       (newgrid False, newgrid False)"

definition mark_faces_y ::
  "geomtype grid \<Rightarrow> nat \<Rightarrow> nat \<Rightarrow> nat \<Rightarrow> bool grid \<times> bool grid" where
  "mark_faces_y a x y z =
     for3 x (y + 1) z
       (\<lambda>i j k (mk, wm).
          (setCell mk i j k ((j > 0 \<and> getCell a i (j - 1) k = FLUID) \<or>
                             (j < y \<and> getCell a i j k = FLUID)),
           setCell wm i j k ((j \<le> 0 \<or> getCell a i (j - 1) k = SOLID) \<and>
                             (j \<ge> y \<or> getCell a i j k = SOLID))))
       (newgrid False, newgrid False)"

definition mark_faces_z ::
  "geomtype grid \<Rightarrow> nat \<Rightarrow> nat \<Rightarrow> nat \<Rightarrow> bool grid \<times> bool grid" where
  "mark_faces_z a x y z =
     for3 x y (z + 1)
       (\<lambda>i j k (mk, wm).
          (setCell mk i j k ((k > 0 \<and> getCell a i j (k - 1) = FLUID) \<or>
                             (k < z \<and> getCell a i j k = FLUID)),
           setCell wm i j k ((k \<le> 0 \<or> getCell a i j (k - 1) = SOLID) \<and>
                             (k \<ge> z \<or> getCell a i j k = SOLID))))
       (newgrid False, newgrid False)"

text \<open>
  The body of the innermost loop of the sweep, for the face \<open>(i, j, k)\<close> of
  component \<open>n\<close>. The six neighbours \<open>q\<close> are floats converted from unsigned
  values, so \<open>i - 1\<close> at \<open>i = 0\<close> is \<open>2^32 - 1\<close> and fails the range test.
\<close>

definition extrapolate_face ::
  "nat \<Rightarrow> nat \<Rightarrow> nat \<Rightarrow> bool grid list \<Rightarrow> bool grid list \<Rightarrow>
   nat \<Rightarrow> nat \<Rightarrow> nat \<Rightarrow> nat \<Rightarrow> macgrid \<Rightarrow> macgrid" where
  "extrapolate_face x y z mark wallmark i j k n m =
     (if n \<noteq> 0 \<and> i > usub x 1 then m
      else if n \<noteq> 1 \<and> j > usub y 1 then m
      else if n \<noteq> 2 \<and> k > usub z 1 then m
      else if \<not> getCell (mark ! n) i j k \<and> getCell (wallmark ! n) i j k then
        (let q = [(usub i 1, j, k), (i + 1, j, k), (i, usub j 1, k),
                  (i, j + 1, k), (i, j, usub k 1), (i, j, k + 1)];
             (wsum, sum) =
               fold (\<lambda>(q0, q1, q2) (wsum, sum).
                       if 0 \<le> q0 \<and> q0 < x + of_bool (n = 0) \<and> 0 \<le> q1 \<and>
                          q1 < y + of_bool (n = 1) \<and> 0 \<le> q2 \<and> q2 < z + of_bool (n = 2)
                       then
                         if getCell (mark ! n) q0 q1 q2 then
                           (wsum + 1,
                            if n = 0 then sum + getCell (u_x m) q0 q1 q2
                            else if n = 1 then sum + getCell (u_y m) q0 q1 q2
                            else if n = 2 then sum + getCell (u_z m) q0 q1 q2
                            else sum)
                         else (wsum, sum)
                       else (wsum, sum))
                    q (0 :: nat, 0 :: real)
         in if wsum \<noteq> 0 then
              (if n = 0 then m\<lparr>u_x := setCell (u_x m) i j k (sum / real wsum)\<rparr>
               else if n = 1 then m\<lparr>u_y := setCell (u_y m) i j k (sum / real wsum)\<rparr>
               else if n = 2 then m\<lparr>u_z := setCell (u_z m) i j k (sum / real wsum)\<rparr>
               else m)
            else m)
      else m)"

definition extrapolateVelocity :: "('sc, 'pg) flipsim \<Rightarrow> ('sc, 'pg) flipsim" where
  "extrapolateVelocity s =
     (let x = dimx s; y = dimy s; z = dimz s;
          (mark0, wallmark0) = mark_faces_x (A_grid (mgrid s)) x y z;
          (mark1, wallmark1) = mark_faces_y (A_grid (mgrid s)) x y z;
          (mark2, wallmark2) = mark_faces_z (A_grid (mgrid s)) x y z;
          mark = [mark0, mark1, mark2];
          wallmark = [wallmark0, wallmark1, wallmark2];
          m = for3 (x + 1) (y + 1) (z + 1)
                (\<lambda>i j k. fold (extrapolate_face x y z mark wallmark i j k) [0..<3])
                (mgrid s)
      in s\<lparr>mgrid := m\<rparr>)"

text \<open>
  The notions the statements about extrapolateVelocity use: the face velocity of
  component \<open>n\<close>, the two indicators as the three marking loops compute them, the
  faces the sweep reaches, and the neighbours a face averages over.
\<close>

definition face_vel :: "macgrid \<Rightarrow> nat \<Rightarrow> nat \<times> nat \<times> nat \<Rightarrow> real" where
  "face_vel m n c = (if n = 0 then u_x m c else if n = 1 then u_y m c
                     else if n = 2 then u_z m c else 0)"

definition face_in_range :: "nat \<Rightarrow> nat \<Rightarrow> nat \<Rightarrow> nat \<Rightarrow> nat \<times> nat \<times> nat \<Rightarrow> bool" where
  "face_in_range x y z n c =
     (case c of (i, j, k) \<Rightarrow>
        i < x + of_bool (n = 0) \<and> j < y + of_bool (n = 1) \<and> k < z + of_bool (n = 2))"

definition valid_face :: "geomtype grid \<Rightarrow> nat \<Rightarrow> nat \<Rightarrow> nat \<Rightarrow> nat \<Rightarrow> nat \<times> nat \<times> nat \<Rightarrow> bool" where
  "valid_face a x y z n c =
     (case c of (i, j, k) \<Rightarrow>
        n < 3 \<and> face_in_range x y z n c \<and>
        (if n = 0 then (i > 0 \<and> a (i - 1, j, k) = FLUID) \<or> (i < x \<and> a (i, j, k) = FLUID)
         else if n = 1 then (j > 0 \<and> a (i, j - 1, k) = FLUID) \<or> (j < y \<and> a (i, j, k) = FLUID)
         else (k > 0 \<and> a (i, j, k - 1) = FLUID) \<or> (k < z \<and> a (i, j, k) = FLUID)))"

definition wall_face :: "geomtype grid \<Rightarrow> nat \<Rightarrow> nat \<Rightarrow> nat \<Rightarrow> nat \<Rightarrow> nat \<times> nat \<times> nat \<Rightarrow> bool" where
  "wall_face a x y z n c =
     (case c of (i, j, k) \<Rightarrow>
        n < 3 \<and> face_in_range x y z n c \<and>
        (if n = 0 then (i \<le> 0 \<or> a (i - 1, j, k) = SOLID) \<and> (i \<ge> x \<or> a (i, j, k) = SOLID)
         else if n = 1 then (j \<le> 0 \<or> a (i, j - 1, k) = SOLID) \<and> (j \<ge> y \<or> a (i, j, k) = SOLID)
         else (k \<le> 0 \<or> a (i, j, k - 1) = SOLID) \<and> (k \<ge> z \<or> a (i, j, k) = SOLID)))"

definition swept :: "nat \<Rightarrow> nat \<Rightarrow> nat \<Rightarrow> nat \<Rightarrow> nat \<times> nat \<times> nat \<Rightarrow> bool" where
  "swept x y z n c =
     (case c of (i, j, k) \<Rightarrow>
        n < 3 \<and> i < x + 1 \<and> j < y + 1 \<and> k < z + 1 \<and>
        \<not> (n \<noteq> 0 \<and> i > usub x 1) \<and> \<not> (n \<noteq> 1 \<and> j > usub y 1) \<and> \<not> (n \<noteq> 2 \<and> k > usub z 1))"

definition valid_neighbors ::
  "geomtype grid \<Rightarrow> nat \<Rightarrow> nat \<Rightarrow> nat \<Rightarrow> nat \<Rightarrow> nat \<times> nat \<times> nat \<Rightarrow> (nat \<times> nat \<times> nat) list" where
  "valid_neighbors a x y z n c =
     (case c of (i, j, k) \<Rightarrow>
        filter (\<lambda>q. face_in_range x y z n q \<and> valid_face a x y z n q)
          [(usub i 1, j, k), (i + 1, j, k), (i, usub j 1, k),
           (i, j + 1, k), (i, j, usub k 1), (i, j, k + 1)])"

definition extrap_writes ::
  "geomtype grid \<Rightarrow> nat \<Rightarrow> nat \<Rightarrow> nat \<Rightarrow> nat \<Rightarrow> nat \<times> nat \<times> nat \<Rightarrow> bool" where
  "extrap_writes a x y z n c =
     (swept x y z n c \<and> \<not> valid_face a x y z n c \<and> wall_face a x y z n c \<and>
      valid_neighbors a x y z n c \<noteq> [])"

definition extrap_value ::
  "geomtype grid \<Rightarrow> nat \<Rightarrow> nat \<Rightarrow> nat \<Rightarrow> macgrid \<Rightarrow> nat \<Rightarrow> nat \<times> nat \<times> nat \<Rightarrow> real" where
  "extrap_value a x y z m n c =
     sum_list (map (face_vel m n) (valid_neighbors a x y z n c)) /
       real (length (valid_neighbors a x y z n c))"

text \<open>The axis-aligned neighbours of a face that have non-negative indices.\<close>

definition axis_neighbors :: "nat \<times> nat \<times> nat \<Rightarrow> (nat \<times> nat \<times> nat) list" where
  "axis_neighbors c =
     (case c of (i, j, k) \<Rightarrow>
        (if i > 0 then [(i - 1, j, k)] else []) @ [(i + 1, j, k)] @
        (if j > 0 then [(i, j - 1, k)] else []) @ [(i, j + 1, k)] @
        (if k > 0 then [(i, j, k - 1)] else []) @ [(i, j, k + 1)])"

subsection \<open>The end of step: marking, temporary particles, stuck particles\<close>

text \<open>
  The three phases that end step. \<open>mark_invalid\<close> is the loop of lines 126-143: it
  touches one particle per iteration and reads nothing of the others.
\<close>

definition mark_invalid :: "('sc, 'pg) flipsim \<Rightarrow> ('sc, 'pg) flipsim" where
  "mark_invalid s =
     s\<lparr>particles :=
         map (\<lambda>q.
                let q1 = q\<lparr>p_invalid := False\<rparr>;
                    t = vscale (p_p q1) (maxd s);
                    q2 = (if vx t > vx (dimensions s) \<or> vy t > vy (dimensions s) \<or>
                             vz t > vz (dimensions s)
                          then q1\<lparr>p_invalid := True\<rparr> else q1);
                    q3 = (if vx t < 0 \<or> vy t < 0 \<or> vz t < 0
                          then q2\<lparr>p_invalid := True\<rparr> else q2);
                    q4 = (if getCellv (A_grid (mgrid s)) t = SOLID
                          then q3\<lparr>p_invalid := True\<rparr> else q3)
                in q4)
             (particles s)\<rparr>"

text \<open>
  The two tests of the loop on the scaled position \<open>t = p * maxd\<close>, and the unit
  cube of the specification.
\<close>

definition outside_box :: "vec3 \<Rightarrow> vec3 \<Rightarrow> bool" where
  "outside_box dims t =
     (vx t > vx dims \<or> vy t > vy dims \<or> vz t > vz dims \<or> vx t < 0 \<or> vy t < 0 \<or> vz t < 0)"

definition in_unit_cube :: "vec3 \<Rightarrow> bool" where
  "in_unit_cube v = (0 \<le> vx v \<and> vx v \<le> 1 \<and> 0 \<le> vy v \<and> vy v \<le> 1 \<and> 0 \<le> vz v \<and> vz v \<le> 1)"

text \<open>Lines 145-154 erase the particles whose \<open>temp\<close> flag is set.\<close>

definition remove_temp :: "('sc, 'pg) flipsim \<Rightarrow> ('sc, 'pg) flipsim" where
  "remove_temp s = s\<lparr>particles := filter (\<lambda>q. \<not> p_temp q) (particles s)\<rparr>"

text \<open>
  Lines 156-178. \<open>stuckParticles\<close> holds pointers into \<open>particles\<close>: here, indices.
  The scene projects the collected positions in place; the penalty loop runs over the
  projected positions.
\<close>

definition collect_stuck :: "particle list \<Rightarrow> real \<Rightarrow> nat list \<times> vec3 list" where
  "collect_stuck ps md =
     fold (\<lambda>p (stuckParticles, stuckPositions).
             if p_invalid (ps ! p) \<and> p_type (ps ! p) = FLUID
             then (stuckParticles @ [p], stuckPositions @ [vscale (p_p (ps ! p)) md])
             else (stuckParticles, stuckPositions))
          [0..<length ps] ([], [])"

definition push_stuck :: "('sc, 'pg) collab \<Rightarrow> ('sc, 'pg) flipsim \<Rightarrow> ('sc, 'pg) flipsim" where
  "push_stuck env s =
     (let (stuckParticles, stuckPositions0) = collect_stuck (particles s) (maxd s);
          stuckPositions = projectPointsToSolidSurface env (scene s) stuckPositions0;
          ps = fold (\<lambda>p ps.
                       if vlength (vsub (stuckPositions ! p)
                                        (vscale (p_p (ps ! (stuckParticles ! p))) (maxd s)))
                            > 1 / 10000
                       then
                         (let penaltyForce = 10;
                              vdir = vsub (stuckPositions ! p)
                                          (vscale (p_p (ps ! (stuckParticles ! p))) (maxd s))
                          in ps[stuckParticles ! p :=
                                  (ps ! (stuckParticles ! p))
                                    \<lparr>p_p := vdiv (stuckPositions ! p) (maxd s),
                                     p_u := vscale vdir penaltyForce\<rparr>])
                       else ps)
                    [0..<length stuckPositions] (particles s)
      in s\<lparr>particles := ps\<rparr>)"

text \<open>The stuck particles, by index, and the update of one of them (lines 172-177).\<close>

definition stuck_indices :: "particle list \<Rightarrow> nat list" where
  "stuck_indices ps = filter (\<lambda>i. p_invalid (ps ! i) \<and> p_type (ps ! i) = FLUID) [0..<length ps]"

definition penalty :: "real \<Rightarrow> vec3 \<Rightarrow> particle \<Rightarrow> particle" where
  "penalty md projected q =
     (if vlength (vsub projected (vscale (p_p q) md)) > 1 / 10000
      then q\<lparr>p_p := vdiv projected md,
             p_u := vscale (vsub projected (vscale (p_p q) md)) 10\<rparr>
      else q)"

subsection \<open>advectParticles\<close>

text \<open>
  Line 210 clamps a position into \<open>[r, 1 - r]^3\<close> with \<open>r = 1 / maxd\<close>; lines 215-217
  compute the cell whose neighbours are searched.
\<close>

definition clamp_to_walls :: "real \<Rightarrow> vec3 \<Rightarrow> vec3" where
  "clamp_to_walls md v = (let r = 1 / md in vmax (vec3_of r) (vmin (vec3_of (1 - r)) v))"

definition particle_cell :: "nat \<Rightarrow> nat \<Rightarrow> nat \<Rightarrow> real \<Rightarrow> vec3 \<Rightarrow> vec3" where
  "particle_cell x y z md v =
     (let i = nat \<lfloor>min (real x - 1) (vx v * md)\<rfloor>;
          j = nat \<lfloor>min (real y - 1) (vy v * md)\<rfloor>;
          k = nat \<lfloor>min (real z - 1) (vz v * md)\<rfloor>
      in Vec3 (real i) (real j) (real k))"

text \<open>
  The body of the loop over the neighbours (lines 220-232): \<open>np\<close> is a pointer to a
  particle, here its index; \<open>p0\<close> is the particle being constrained.
\<close>

definition push_from_solid :: "real \<Rightarrow> real \<Rightarrow> nat \<Rightarrow> nat \<Rightarrow> particle list \<Rightarrow> particle list" where
  "push_from_solid md dens p0 np ps =
     (let re = 15 / 10 * dens / md
      in if p_type (ps ! np) = SOLID then
           (let dist = vlength (vsub (p_p (ps ! p0)) (p_p (ps ! np)))
            in if dist < re then
                 (let normal0 = p_n (ps ! np);
                      normal = (if vlength normal0 < 1 / 10000000 \<and> dist \<noteq> 0
                                then vnormalize (vsub (p_p (ps ! p0)) (p_p (ps ! np)))
                                else normal0);
                      q1 = (ps ! p0)\<lparr>p_p := vadd (p_p (ps ! p0)) (smul (re - dist) normal)\<rparr>;
                      q2 = q1\<lparr>p_u := vsub (p_u q1) (smul (dot (p_u q1) normal) normal)\<rparr>
                  in ps[p0 := q2])
               else ps)
         else ps)"

text \<open>One iteration of the second loop (lines 207-235).\<close>

definition constrain_particle ::
  "('sc, 'pg) collab \<Rightarrow> 'pg \<Rightarrow> real \<Rightarrow> real \<Rightarrow> nat \<Rightarrow> nat \<Rightarrow> nat \<Rightarrow>
   nat \<Rightarrow> particle list \<Rightarrow> particle list" where
  "constrain_particle env pg md dens x y z p0 ps =
     (let ps1 = (if p_type (ps ! p0) = FLUID
                 then ps[p0 := (ps ! p0)\<lparr>p_p := clamp_to_walls md (p_p (ps ! p0))\<rparr>]
                 else ps)
      in if p_type (ps1 ! p0) = FLUID then
           (let neighbors = getCellNeighbors env pg
                              (particle_cell x y z md (p_p (ps1 ! p0))) (vec3_of 1)
            in fold (push_from_solid md dens p0) neighbors ps1)
         else ps1)"

definition advectParticles ::
  "('sc, 'pg) collab \<Rightarrow> ('sc, 'pg) flipsim \<Rightarrow> ('sc, 'pg) flipsim" where
  "advectParticles env s =
     (let x = dimx s; y = dimy s; z = dimz s;
          particleCount = length (particles s);
          ps1 = map (\<lambda>q. if p_type q = FLUID
                          then (let velocity = interpolateVelocity env (p_p q) (mgrid s)
                                in q\<lparr>p_p := vadd (p_p q) (smul (stepsize s) velocity)\<rparr>)
                          else q)
                    (particles s);
          pg = sort_pgrid env (pgrid s) ps1;
          ps2 = fold (constrain_particle env pg (maxd s) (density s) x y z)
                     [0..<particleCount] ps1
      in s\<lparr>particles := ps2, pgrid := pg\<rparr>)"

text \<open>The box \<open>[h, 1 - h]^3\<close>.\<close>

definition in_wall_box :: "real \<Rightarrow> vec3 \<Rightarrow> bool" where
  "in_wall_box h v = (h \<le> vx v \<and> vx v \<le> 1 - h \<and> h \<le> vy v \<and> vy v \<le> 1 - h \<and>
                      h \<le> vz v \<and> vz v \<le> 1 - h)"

subsection \<open>computeDensity, project and step\<close>

text \<open>The cast \<open>(int)\<close> of a float truncates toward zero.\<close>

definition to_int :: "real \<Rightarrow> int" where
  "to_int r = (if 0 \<le> r then \<lfloor>r\<rfloor> else \<lceil>r\<rceil>)"

text \<open>
  Modelled from the spec: mathCore::sqrlength is defined in math/kernels.inl, outside
  flip.cpp; section 4.8 gives the squared distance \<open>|n.p - p.p|^2\<close> of the two
  positions.
\<close>

definition sqrlength :: "vec3 \<Rightarrow> vec3 \<Rightarrow> real" where
  "sqrlength a b = dot (vsub a b) (vsub a b)"

text \<open>
  Each iteration writes the density of its own particle and reads position, mass and
  type of the neighbours, which no iteration writes.
\<close>

definition computeDensity :: "('sc, 'pg) collab \<Rightarrow> ('sc, 'pg) flipsim \<Rightarrow> ('sc, 'pg) flipsim" where
  "computeDensity env s =
     s\<lparr>particles :=
         map (\<lambda>q.
                if p_type q = SOLID then q\<lparr>p_density := Finite 1\<rparr>
                else
                  (let im = real_of_int (to_int (maxd s));
                       position =
                         Vec3 (real_of_int (to_int (max 0 (min (im - 1) (im * vx (p_p q))))))
                              (real_of_int (to_int (max 0 (min (im - 1) (im * vy (p_p q))))))
                              (real_of_int (to_int (max 0 (min (im - 1) (im * vz (p_p q))))));
                       neighbors = getCellNeighbors env (pgrid s) position (vec3_of 1);
                       weightsum =
                         fold (\<lambda>m weightsum.
                                 if p_type (particles s ! m) \<noteq> SOLID then
                                   (let sqd = sqrlength (p_p (particles s ! m)) (p_p q);
                                        weight = p_mass (particles s ! m) *
                                                 smooth env sqd (4 * density s / maxd s)
                                    in weightsum + weight)
                                 else weightsum)
                              neighbors 0
                   in q\<lparr>p_density := fdiv weightsum (max_density s)\<rparr>))
             (particles s)\<rparr>"

definition project :: "('sc, 'pg) collab \<Rightarrow> ('sc, 'pg) flipsim \<Rightarrow> ('sc, 'pg) flipsim" where
  "project env s =
     (let x = dimx s; y = dimy s; z = dimz s;
          h = 1 / maxd s;
          m = mgrid s;
          dg = for3 x y z
                 (\<lambda>i j k g.
                    let divergence =
                          (getCell (u_x m) (i + 1) j k - getCell (u_x m) i j k +
                           getCell (u_y m) i (j + 1) k - getCell (u_y m) i j k +
                           getCell (u_z m) i j (k + 1) - getCell (u_z m) i j k) / h
                    in setCell g i j k divergence)
                 (D_grid m);
          m1 = m\<lparr>D_grid := dg\<rparr>;
          m2 = buildSDF env (pgrid s) m1 (density s);
          m3 = solve env m2 (subcell s) (verbose s)
      in subtractPressureGradient (s\<lparr>mgrid := m3\<rparr>))"

text \<open>The calls of step to collaborators, on the simulator state.\<close>

definition increment_frame :: "('sc, 'pg) flipsim \<Rightarrow> ('sc, 'pg) flipsim" where
  "increment_frame s = s\<lparr>frame := frame s + 1\<rparr>"

definition build_level_sets :: "('sc, 'pg) collab \<Rightarrow> ('sc, 'pg) flipsim \<Rightarrow> ('sc, 'pg) flipsim" where
  "build_level_sets env s = s\<lparr>scene := buildLevelSets env (scene s) (frame s)\<rparr>"

definition generate_particles :: "('sc, 'pg) collab \<Rightarrow> ('sc, 'pg) flipsim \<Rightarrow> ('sc, 'pg) flipsim" where
  "generate_particles env s =
     (case generateParticles env (scene s) (particles s) (dimensions s) (density s) (pgrid s)
             (frame s) of
        (pg, ps) \<Rightarrow> s\<lparr>pgrid := pg, particles := ps\<rparr>)"

definition sort_particles :: "('sc, 'pg) collab \<Rightarrow> ('sc, 'pg) flipsim \<Rightarrow> ('sc, 'pg) flipsim" where
  "sort_particles env s = s\<lparr>pgrid := sort_pgrid env (pgrid s) (particles s)\<rparr>"

definition splat_particles :: "('sc, 'pg) collab \<Rightarrow> ('sc, 'pg) flipsim \<Rightarrow> ('sc, 'pg) flipsim" where
  "splat_particles env s =
     s\<lparr>mgrid := splatParticlesToMACGrid env (pgrid s) (particles s) (mgrid s)\<rparr>"

definition mark_cell_types :: "('sc, 'pg) collab \<Rightarrow> ('sc, 'pg) flipsim \<Rightarrow> ('sc, 'pg) flipsim" where
  "mark_cell_types env s =
     s\<lparr>mgrid := (mgrid s)\<lparr>A_grid :=
          markCellTypes env (pgrid s) (particles s) (A_grid (mgrid s)) (density s)\<rparr>\<rparr>"

definition enforce_boundary :: "('sc, 'pg) collab \<Rightarrow> ('sc, 'pg) flipsim \<Rightarrow> ('sc, 'pg) flipsim" where
  "enforce_boundary env s = s\<lparr>mgrid := enforceBoundaryVelocity env (mgrid s)\<rparr>"

definition resample_particles :: "('sc, 'pg) collab \<Rightarrow> ('sc, 'pg) flipsim \<Rightarrow> ('sc, 'pg) flipsim" where
  "resample_particles env s =
     (let h = density s / maxd s
      in case resampleParticles env (pgrid s) (particles s) (stepsize s) h (dimensions s) of
           (pg, ps) \<Rightarrow> s\<lparr>pgrid := pg, particles := ps\<rparr>)"

definition export_particles ::
  "('sc, 'pg) collab \<Rightarrow> bool \<Rightarrow> bool \<Rightarrow> bool \<Rightarrow> ('sc, 'pg) flipsim \<Rightarrow> ('sc, 'pg) flipsim" where
  "export_particles env saveVDB saveOBJ savePARTIO s =
     s\<lparr>scene := exportParticles env (scene s) (particles s) (maxd s) (frame s)
                    saveVDB saveOBJ savePARTIO\<rparr>"

text \<open>
  step (lines 99-183): the calls in the order of the source. The export happens when
  one of the three flags is set.
\<close>

definition step ::
  "('sc, 'pg) collab \<Rightarrow> bool \<Rightarrow> bool \<Rightarrow> bool \<Rightarrow> ('sc, 'pg) flipsim \<Rightarrow> ('sc, 'pg) flipsim" where
  "step env saveVDB saveOBJ savePARTIO s0 =
     (let s1 = increment_frame s0;
          s2 = build_level_sets env s1;
          s3 = generate_particles env s2;
          s4 = sort_particles env s3;
          s5 = computeDensity env s4;
          s6 = applyExternalForces s5;
          s7 = splat_particles env s6;
          s8 = mark_cell_types env s7;
          s9 = storePreviousGrid s8;
          s10 = enforce_boundary env s9;
          s11 = project env s10;
          s12 = enforce_boundary env s11;
          s13 = extrapolateVelocity s12;
          s14 = subtractPreviousGrid s13;
          s15 = solvePicFlip env s14;
          s16 = advectParticles env s15;
          s17 = resample_particles env s16;
          s18 = mark_invalid s17;
          s19 = remove_temp s18;
          s20 = push_stuck env s19
      in if saveVDB \<or> saveOBJ \<or> savePARTIO
         then export_particles env saveVDB saveOBJ savePARTIO s20
         else s20)"

subsection \<open>Example states\<close>

definition particle0 :: particle where
  "particle0 = \<lparr> p_p = Vec3 (1/2) (1/2) (1/2), p_u = Vec3 0 0 0, p_n = Vec3 0 0 0,
       p_t = Vec3 0 0 0, p_mass = 1, p_density = Finite 0, p_type = FLUID,
       p_invalid = False, p_temp = False \<rparr>"

definition macgrid0 :: macgrid where
  "macgrid0 = \<lparr> u_x = newgrid 0, u_y = newgrid 0, u_z = newgrid 0,
       A_grid = newgrid AIR, P_grid = newgrid 0, D_grid = newgrid 0, L_grid = newgrid 0 \<rparr>"

definition sim0 :: "(unit, unit) flipsim" where
  "sim0 = flipsim_new (Vec3 4 4 4) () 2 False () macgrid0 macgrid0"

definition env0 :: "(unit, unit) collab" where
  "env0 = \<lparr> interpolateVelocity =
               (\<lambda>pos g. Vec3 (u_x g (0, 0, 0)) (u_y g (0, 0, 0)) (u_z g (0, 0, 0))),
            getCellNeighbors = (\<lambda>pg c r. []),
            sort_pgrid = (\<lambda>pg ps. pg),
            markCellTypes = (\<lambda>pg ps a d. a),
            buildSDF = (\<lambda>pg m d. m),
            splatParticlesToMACGrid = (\<lambda>pg ps m. m),
            enforceBoundaryVelocity = (\<lambda>m. m),
            solve = (\<lambda>m sc vb. m),
            resampleParticles = (\<lambda>pg ps dt h dims. (pg, ps)),
            smooth = (\<lambda>r2 h. max 0 (1 - r2 / (h * h)) ^ 3),
            buildLevelSets = (\<lambda>sc fr. sc),
            generateParticles = (\<lambda>sc ps dims d pg fr. (pg, ps)),
            projectPointsToSolidSurface = (\<lambda>sc pts. map (\<lambda>q. vadd q (Vec3 1 0 0)) pts),
            exportParticles = (\<lambda>sc ps md fr vdb obj partio. sc),
            getLiquidLevelSet = (\<lambda>sc c. - 1),
            getSolidLevelSet = (\<lambda>sc c. 1) \<rparr>"

definition sim_saved :: "(unit, unit) flipsim" where
  "sim_saved = sim0\<lparr>mgrid := macgrid0\<lparr>u_x := newgrid 1\<rparr>\<rparr>"

definition sim_blend :: "(unit, unit) flipsim" where
  "sim_blend = sim0\<lparr>particles := [particle0\<lparr>p_u := Vec3 2 0 0\<rparr>],
                    mgrid := macgrid0\<lparr>u_x := newgrid 3\<rparr>,
                    mgrid_previous := mgrid_previous (storePreviousGrid sim_saved)\<rparr>"

definition sim_pressure :: "(unit, unit) flipsim" where
  "sim_pressure =
     sim0\<lparr>mgrid := macgrid0\<lparr>L_grid := (\<lambda>(i, j, k). if i = 0 then - 1 else 1),
                                P_grid := newgrid 2\<rparr>\<rparr>"

definition sim_band :: "(unit, unit) flipsim" where
  "sim_band = sim0\<lparr>dimensions := Vec3 2 1 1,
                   mgrid := macgrid0\<lparr>A_grid := (newgrid AIR)((0, 0, 0) := FLUID),
                                      u_x := (newgrid 0)((1, 0, 0) := 1)\<rparr>\<rparr>"

definition sim_wall :: "(unit, unit) flipsim" where
  "sim_wall = sim0\<lparr>dimensions := Vec3 2 1 1,
                   mgrid := macgrid0\<lparr>A_grid := (newgrid AIR)((0, 0, 0) := FLUID, (1, 0, 0) := SOLID),
                                      u_x := (newgrid 0)((1, 0, 0) := 1)\<rparr>\<rparr>"

definition sim_flat :: "(unit, unit) flipsim" where
  "sim_flat = sim0\<lparr>dimensions := Vec3 4 2 2,
                   particles := [particle0\<lparr>p_p := Vec3 (1 / 2) (3 / 4) (1 / 2)\<rparr>]\<rparr>"

definition sim_stuck :: "(unit, unit) flipsim" where
  "sim_stuck = sim0\<lparr>particles := [particle0\<lparr>p_invalid := True\<rparr>]\<rparr>"

definition env_near :: "(unit, unit) collab" where
  "env_near = env0\<lparr>projectPointsToSolidSurface :=
                      (\<lambda>sc pts. map (\<lambda>q. vadd q (Vec3 (1 / 100000) 0 0)) pts)\<rparr>"

definition env_wall :: "(unit, unit) collab" where
  "env_wall = env0\<lparr>getCellNeighbors := (\<lambda>pg c r. [1])\<rparr>"

definition sim_advect :: "(unit, unit) flipsim" where
  "sim_advect =
     sim0\<lparr>particles := [particle0\<lparr>p_p := Vec3 (1 / 4) (1 / 2) (1 / 2)\<rparr>,
                         particle0\<lparr>p_type := SOLID, p_n := Vec3 (- 1) 0 0\<rparr>]\<rparr>"

definition sim_far :: "(unit, unit) flipsim" where
  "sim_far = sim_advect\<lparr>density := 1 / 5\<rparr>"

section \<open>Theorems\<close>

subsection \<open>applyExternalForces (C2)\<close>

text \<open>
  C2, as stated: applyExternalForces adds gravity times the step size to every FLUID
  particle and leaves the velocity of every particle that is not FLUID unchanged.
  The second half fails: the loop has no test of the particle type. Here a SOLID
  particle at rest leaves applyExternalForces with a velocity that is not its old one.
\<close>

theorem applyExternalForces_solid_counterexample:
  "p_type (particles (sim0\<lparr>particles := [particle0\<lparr>p_type := SOLID\<rparr>]\<rparr>) ! 0) \<noteq> FLUID \<and>
   p_u (particles (applyExternalForces (sim0\<lparr>particles := [particle0\<lparr>p_type := SOLID\<rparr>]\<rparr>)) ! 0)
     \<noteq> p_u (particles (sim0\<lparr>particles := [particle0\<lparr>p_type := SOLID\<rparr>]\<rparr>) ! 0)"
  by (simp add: applyExternalForces_def sim0_def flipsim_new_def particle0_def
      vadd_def vscale_def gravity_def)

text \<open>
  C2, amended: applyExternalForces adds \<open>(0, -9.8, 0) * stepsize\<close> to the velocity of
  every particle, whatever its type (FLUID, SOLID or AIR); it changes no other field
  of a particle and nothing else in the simulator.
\<close>

theorem applyExternalForces_all_particles:
  "i < length (particles s) \<Longrightarrow>
     particles (applyExternalForces s) ! i =
       (particles s ! i)\<lparr>p_u := vadd (p_u (particles s ! i))
                                 (vscale (Vec3 0 (- (98 / 10)) 0) (stepsize s))\<rparr> \<and>
     length (particles (applyExternalForces s)) = length (particles s) \<and>
     applyExternalForces s = s\<lparr>particles := particles (applyExternalForces s)\<rparr>"
  by (simp add: applyExternalForces_def gravity_def)

theorem applyExternalForces_all_particles_witness:
  "p_u (particles (applyExternalForces (sim0\<lparr>particles := [particle0\<lparr>p_type := AIR\<rparr>]\<rparr>)) ! 0)
     = Vec3 0 (- (49 / 1000)) 0"
  using applyExternalForces_all_particles
          [of 0 "sim0\<lparr>particles := [particle0\<lparr>p_type := AIR\<rparr>]\<rparr>"]
  by (simp add: sim0_def flipsim_new_def particle0_def vadd_def vscale_def)

subsection \<open>isCellFluid (C10)\<close>

text \<open>
  C10: isCellFluid(i,j,k) is true if and only if the scene's liquid level set at the
  cell is strictly negative and the scene's solid level set there is non-negative.
  It does not read the cell-type grid \<open>mgrid.A\<close>: replacing the MAC grid by any other
  leaves the answer as it is, so the answer is the same whether \<open>mgrid.A\<close> holds
  FLUID at the cell or not.
\<close>

theorem isCellFluid_level_sets_only:
  "(isCellFluid env s x y z \<longleftrightarrow>
      getLiquidLevelSet env (scene s) (x, y, z) < 0 \<and>
      getSolidLevelSet env (scene s) (x, y, z) \<ge> 0) \<and>
   isCellFluid env (s\<lparr>mgrid := (mgrid s)\<lparr>A_grid := a\<rparr>\<rparr>) x y z = isCellFluid env s x y z \<and>
   isCellFluid env (s\<lparr>mgrid := m\<rparr>) x y z = isCellFluid env s x y z"
  by (simp add: isCellFluid_def)

theorem isCellFluid_level_sets_only_witness:
  "isCellFluid env0 sim0 1 1 1 \<and> A_grid (mgrid sim0) (1, 1, 1) = AIR \<and>
   \<not> isCellFluid (env0\<lparr>getLiquidLevelSet := (\<lambda>sc c. 1)\<rparr>)
        (sim0\<lparr>mgrid := (mgrid sim0)\<lparr>A_grid := newgrid FLUID\<rparr>\<rparr>) 1 1 1 \<and>
   A_grid (mgrid (sim0\<lparr>mgrid := (mgrid sim0)\<lparr>A_grid := newgrid FLUID\<rparr>\<rparr>)) (1, 1, 1) = FLUID"
  using isCellFluid_level_sets_only [of env0 sim0 1 1 1]
    isCellFluid_level_sets_only [of "env0\<lparr>getLiquidLevelSet := (\<lambda>sc c. 1)\<rparr>" sim0 1 1 1
      "newgrid FLUID"]
  by (simp add: env0_def sim0_def flipsim_new_def macgrid0_def newgrid_def)

subsection \<open>Loops over grid cells: each cell is visited once\<close>

lemma fold_product:
  "fold (\<lambda>(a, b). f a b) (List.product xs ys) = fold (\<lambda>a. fold (f a) ys) xs"
proof (induction xs)
  case Nil
  show ?case by simp
next
  case (Cons x xs)
  have "fold (\<lambda>(a, b). f a b) (map (Pair x) ys) = fold (f x) ys"
    by (simp add: fold_map comp_def)
  with Cons show ?case by (simp add: comp_def)
qed

lemma for3_flat:
  "for3 nx ny nz body = fold (\<lambda>(i, j, k). body i j k) (cells3 nx ny nz)"
proof -
  have "fold (\<lambda>(i, jk). (\<lambda>(j, k). body i j k) jk) (cells3 nx ny nz)
      = fold (\<lambda>i. fold (\<lambda>(j, k). body i j k) (List.product [0..<ny] [0..<nz])) [0..<nx]"
    unfolding cells3_def by (rule fold_product [where f = "\<lambda>i jk. (\<lambda>(j, k). body i j k) jk"])
  also have "\<dots> = for3 nx ny nz body"
    unfolding for3_def by (simp add: fold_product)
  finally show ?thesis by (simp add: case_prod_unfold)
qed

lemma distinct_cells3: "distinct (cells3 nx ny nz)"
  by (simp add: cells3_def distinct_product)

lemma set_cells3: "(a, b, c) \<in> set (cells3 nx ny nz) \<longleftrightarrow> a < nx \<and> b < ny \<and> c < nz"
  by (auto simp: cells3_def)

lemma fold_frozen:
  assumes step: "\<And>c s a. c \<in> set cs \<Longrightarrow>
                   get (body c s) a = (if a = c \<and> W c then v s c else get s a)"
    and frame: "\<And>s s' c. (\<And>r. R r \<Longrightarrow> get s r = get s' r) \<Longrightarrow> v s c = v s' c"
    and wr: "\<And>c. W c \<Longrightarrow> \<not> R c"
    and dist: "distinct cs"
    and agree: "\<And>r. R r \<Longrightarrow> get s r = get s0 r"
  shows "get (fold body cs s) a = (if a \<in> set cs \<and> W a then v s0 a else get s a)"
  using step dist agree
proof (induction cs arbitrary: s)
  case Nil
  show ?case by simp
next
  case (Cons c cs)
  have ag: "\<And>r. R r \<Longrightarrow> get (body c s) r = get s0 r"
    using Cons.prems(1) [of c s] Cons.prems(3) wr by auto
  have "get (fold body cs (body c s)) a =
          (if a \<in> set cs \<and> W a then v s0 a else get (body c s) a)"
    using Cons.IH [of "body c s"] Cons.prems(1) Cons.prems(2) ag by simp
  moreover have "v s c = v s0 c"
    by (rule frame) (rule Cons.prems(3))
  ultimately show ?case
    using Cons.prems(1) [of c s a] Cons.prems(2) by auto
qed

lemma fold_cells:
  assumes "distinct cs"
  shows "fold (\<lambda>c g. g(c := f c (g c))) cs g a = (if a \<in> set cs then f a (g a) else g a)"
  using assms by (induction cs arbitrary: g) auto

lemma for3_setCell:
  "for3 nx ny nz (\<lambda>i j k g. setCell g i j k (f i j k (getCell g i j k))) g (a, b, c) =
     (if a < nx \<and> b < ny \<and> c < nz then f a b c (g (a, b, c)) else g (a, b, c))"
proof -
  have "(\<lambda>(i, j, k) g. setCell g i j k (f i j k (getCell g i j k)))
      = (\<lambda>c g. g(c := (\<lambda>(i, j, k). f i j k) c (g c)))"
    by (auto simp: setCell_def getCell_def fun_eq_iff)
  then show ?thesis
    using fold_cells [OF distinct_cells3, where f = "\<lambda>(i, j, k). f i j k" and g = g
        and a = "(a, b, c)" and nx1 = nx and ny1 = ny and nz1 = nz]
    by (simp add: for3_flat set_cells3)
qed

subsection \<open>The PIC/FLIP blend (C1)\<close>

lemma storePreviousGrid_faces:
  "u_x (mgrid_previous (storePreviousGrid s)) (a, b, c) =
     (if a < dimx s + 1 \<and> b < dimy s \<and> c < dimz s then u_x (mgrid s) (a, b, c)
      else u_x (mgrid_previous s) (a, b, c))"
  "u_y (mgrid_previous (storePreviousGrid s)) (a, b, c) =
     (if a < dimx s \<and> b < dimy s + 1 \<and> c < dimz s then u_y (mgrid s) (a, b, c)
      else u_y (mgrid_previous s) (a, b, c))"
  "u_z (mgrid_previous (storePreviousGrid s)) (a, b, c) =
     (if a < dimx s \<and> b < dimy s \<and> c < dimz s + 1 then u_z (mgrid s) (a, b, c)
      else u_z (mgrid_previous s) (a, b, c))"
  using for3_setCell [where f = "\<lambda>i j k old. getCell (u_x (mgrid s)) i j k"
      and g = "u_x (mgrid_previous s)" and a = a and b = b and c = c
      and nx = "dimx s + 1" and ny = "dimy s" and nz = "dimz s"]
    for3_setCell [where f = "\<lambda>i j k old. getCell (u_y (mgrid s)) i j k"
      and g = "u_y (mgrid_previous s)" and a = a and b = b and c = c
      and nx = "dimx s" and ny = "dimy s + 1" and nz = "dimz s"]
    for3_setCell [where f = "\<lambda>i j k old. getCell (u_z (mgrid s)) i j k"
      and g = "u_z (mgrid_previous s)" and a = a and b = b and c = c
      and nx = "dimx s" and ny = "dimy s" and nz = "dimz s + 1"]
  by (simp_all add: storePreviousGrid_def Let_def getCell_def)

lemma subtractPreviousGrid_faces:
  "u_x (mgrid_previous (subtractPreviousGrid s)) (a, b, c) =
     (if a < dimx s + 1 \<and> b < dimy s \<and> c < dimz s
      then u_x (mgrid s) (a, b, c) - u_x (mgrid_previous s) (a, b, c)
      else u_x (mgrid_previous s) (a, b, c))"
  "u_y (mgrid_previous (subtractPreviousGrid s)) (a, b, c) =
     (if a < dimx s \<and> b < dimy s + 1 \<and> c < dimz s
      then u_y (mgrid s) (a, b, c) - u_y (mgrid_previous s) (a, b, c)
      else u_y (mgrid_previous s) (a, b, c))"
  "u_z (mgrid_previous (subtractPreviousGrid s)) (a, b, c) =
     (if a < dimx s \<and> b < dimy s \<and> c < dimz s + 1
      then u_z (mgrid s) (a, b, c) - u_z (mgrid_previous s) (a, b, c)
      else u_z (mgrid_previous s) (a, b, c))"
  using for3_setCell [where f = "\<lambda>i j k old. getCell (u_x (mgrid s)) i j k - old"
      and g = "u_x (mgrid_previous s)" and a = a and b = b and c = c
      and nx = "dimx s + 1" and ny = "dimy s" and nz = "dimz s"]
    for3_setCell [where f = "\<lambda>i j k old. getCell (u_y (mgrid s)) i j k - old"
      and g = "u_y (mgrid_previous s)" and a = a and b = b and c = c
      and nx = "dimx s" and ny = "dimy s + 1" and nz = "dimz s"]
    for3_setCell [where f = "\<lambda>i j k old. getCell (u_z (mgrid s)) i j k - old"
      and g = "u_z (mgrid_previous s)" and a = a and b = b and c = c
      and nx = "dimx s" and ny = "dimy s" and nz = "dimz s + 1"]
  by (simp_all add: subtractPreviousGrid_def Let_def getCell_def)

lemma subtractPreviousGrid_frame:
  "mgrid (subtractPreviousGrid s) = mgrid s"
  "particles (subtractPreviousGrid s) = particles s"
  "picflipratio (subtractPreviousGrid s) = picflipratio s"
  "dimensions (subtractPreviousGrid s) = dimensions s"
  by (simp_all add: subtractPreviousGrid_def Let_def)

lemma solvePicFlip_particle:
  "i < length (particles s) \<Longrightarrow>
     particles (solvePicFlip env s) ! i =
       (particles s ! i)
         \<lparr>p_u := vadd (smul (1 - picflipratio s)
                         (interpolateVelocity env (p_p (particles s ! i)) (mgrid s)))
                      (smul (picflipratio s)
                         (vadd (interpolateVelocity env (p_p (particles s ! i)) (mgrid_previous s))
                               (p_u (particles s ! i)))),
           p_t := vadd (interpolateVelocity env (p_p (particles s ! i)) (mgrid_previous s))
                       (p_u (particles s ! i))\<rparr>"
  by (simp add: solvePicFlip_def splatMACGridToParticles_def Let_def)

lemma vadd_commute: "vadd a b = vadd b a"
  by (simp add: vadd_def add.commute)

text \<open>
  C1: let \<open>s0\<close> be the state in which storePreviousGrid saved the grid and \<open>s\<close> the
  state in which subtractPreviousGrid and then solvePicFlip run. When solvePicFlip
  returns, the velocity of every particle is \<open>(1 - picflipratio) * PIC + picflipratio *
  FLIP\<close>, where PIC is the gather of \<open>mgrid\<close> at the particle's position and FLIP is
  the particle's velocity on entry plus the gather of \<open>mgrid_previous\<close> there; on
  every face of the staggered grids \<open>mgrid_previous\<close> then holds \<open>mgrid\<close> minus the
  saved grid; and the constructor sets picflipratio to 0.95, which neither function
  changes.
\<close>

theorem solvePicFlip_blend:
  "i < length (particles s) \<Longrightarrow> dimensions s = dimensions s0 \<Longrightarrow>
   mgrid_previous s = mgrid_previous (storePreviousGrid s0) \<Longrightarrow>
     p_u (particles (solvePicFlip env (subtractPreviousGrid s)) ! i) =
       vadd (smul (1 - picflipratio s)
               (interpolateVelocity env (p_p (particles s ! i)) (mgrid s)))
            (smul (picflipratio s)
               (vadd (p_u (particles s ! i))
                     (interpolateVelocity env (p_p (particles s ! i))
                        (mgrid_previous (subtractPreviousGrid s))))) \<and>
     (\<forall>a b c. a < dimx s + 1 \<and> b < dimy s \<and> c < dimz s \<longrightarrow>
        u_x (mgrid_previous (subtractPreviousGrid s)) (a, b, c) =
          u_x (mgrid s) (a, b, c) - u_x (mgrid s0) (a, b, c)) \<and>
     (\<forall>a b c. a < dimx s \<and> b < dimy s + 1 \<and> c < dimz s \<longrightarrow>
        u_y (mgrid_previous (subtractPreviousGrid s)) (a, b, c) =
          u_y (mgrid s) (a, b, c) - u_y (mgrid s0) (a, b, c)) \<and>
     (\<forall>a b c. a < dimx s \<and> b < dimy s \<and> c < dimz s + 1 \<longrightarrow>
        u_z (mgrid_previous (subtractPreviousGrid s)) (a, b, c) =
          u_z (mgrid s) (a, b, c) - u_z (mgrid s0) (a, b, c)) \<and>
     picflipratio (solvePicFlip env (subtractPreviousGrid s)) = picflipratio s \<and>
     picflipratio (flipsim_new maxres sc dens verb pg mg mgp) = 95 / 100"
proof -
  assume i: "i < length (particles s)" and d: "dimensions s = dimensions s0"
    and m: "mgrid_previous s = mgrid_previous (storePreviousGrid s0)"
  have dims: "dimx s = dimx s0" "dimy s = dimy s0" "dimz s = dimz s0"
    using d by (simp_all add: dimx_def dimy_def dimz_def)
  have blend: "p_u (particles (solvePicFlip env (subtractPreviousGrid s)) ! i) =
       vadd (smul (1 - picflipratio s)
               (interpolateVelocity env (p_p (particles s ! i)) (mgrid s)))
            (smul (picflipratio s)
               (vadd (p_u (particles s ! i))
                     (interpolateVelocity env (p_p (particles s ! i))
                        (mgrid_previous (subtractPreviousGrid s)))))"
    using i solvePicFlip_particle [of i "subtractPreviousGrid s" env]
    by (simp add: subtractPreviousGrid_frame vadd_commute)
  have fx: "\<forall>a b c. a < dimx s + 1 \<and> b < dimy s \<and> c < dimz s \<longrightarrow>
        u_x (mgrid_previous (subtractPreviousGrid s)) (a, b, c) =
          u_x (mgrid s) (a, b, c) - u_x (mgrid s0) (a, b, c)"
    by (simp add: subtractPreviousGrid_faces m storePreviousGrid_faces dims)
  have fy: "\<forall>a b c. a < dimx s \<and> b < dimy s + 1 \<and> c < dimz s \<longrightarrow>
        u_y (mgrid_previous (subtractPreviousGrid s)) (a, b, c) =
          u_y (mgrid s) (a, b, c) - u_y (mgrid s0) (a, b, c)"
    by (simp add: subtractPreviousGrid_faces m storePreviousGrid_faces dims)
  have fz: "\<forall>a b c. a < dimx s \<and> b < dimy s \<and> c < dimz s + 1 \<longrightarrow>
        u_z (mgrid_previous (subtractPreviousGrid s)) (a, b, c) =
          u_z (mgrid s) (a, b, c) - u_z (mgrid s0) (a, b, c)"
    by (simp add: subtractPreviousGrid_faces m storePreviousGrid_faces dims)
  have r: "picflipratio (solvePicFlip env (subtractPreviousGrid s)) = picflipratio s"
    by (simp add: solvePicFlip_def Let_def subtractPreviousGrid_frame)
  have c: "picflipratio (flipsim_new maxres sc dens verb pg mg mgp) = 95 / 100"
    by (simp add: flipsim_new_def)
  from blend fx fy fz r c show ?thesis by blast
qed

theorem solvePicFlip_blend_witness:
  "0 < length (particles sim_blend) \<and> dimensions sim_blend = dimensions sim_saved \<and>
   mgrid_previous sim_blend = mgrid_previous (storePreviousGrid sim_saved) \<and>
   p_u (particles (solvePicFlip env0 (subtractPreviousGrid sim_blend)) ! 0) =
     Vec3 (395 / 100) 0 0"
proof -
  have h1: "0 < length (particles sim_blend)"
    by (simp add: sim_blend_def)
  have h2: "dimensions sim_blend = dimensions sim_saved"
    by (simp add: sim_blend_def sim_saved_def)
  have h3: "mgrid_previous sim_blend = mgrid_previous (storePreviousGrid sim_saved)"
    by (simp add: sim_blend_def)
  have dx: "dimx sim_blend = 4" "dimy sim_blend = 4" "dimz sim_blend = 4"
    by (simp_all add: sim_blend_def sim0_def flipsim_new_def dimx_def dimy_def dimz_def)
  note t = solvePicFlip_blend [OF h1 h2 h3, of env0]
  note tx = t [THEN conjunct2, THEN conjunct1, rule_format, of 0 0 0]
  note ty = t [THEN conjunct2, THEN conjunct2, THEN conjunct1, rule_format, of 0 0 0]
  note tz = t [THEN conjunct2, THEN conjunct2, THEN conjunct2, THEN conjunct1,
      rule_format, of 0 0 0]
  have px: "u_x (mgrid_previous (subtractPreviousGrid sim_blend)) (0, 0, 0) = 2"
    using tx dx by (simp add: sim_blend_def sim_saved_def macgrid0_def newgrid_def)
  have py: "u_y (mgrid_previous (subtractPreviousGrid sim_blend)) (0, 0, 0) = 0"
    using ty dx by (simp add: sim_blend_def sim_saved_def sim0_def flipsim_new_def
        macgrid0_def newgrid_def)
  have pz: "u_z (mgrid_previous (subtractPreviousGrid sim_blend)) (0, 0, 0) = 0"
    using tz dx by (simp add: sim_blend_def sim_saved_def sim0_def flipsim_new_def
        macgrid0_def newgrid_def)
  have e: "interpolateVelocity env0 (p_p (particles sim_blend ! 0))
             (mgrid_previous (subtractPreviousGrid sim_blend)) = Vec3 2 0 0"
    using px py pz by (simp add: env0_def)
  have "p_u (particles (solvePicFlip env0 (subtractPreviousGrid sim_blend)) ! 0) =
     Vec3 (395 / 100) 0 0"
    unfolding t [THEN conjunct1] e
    by (simp add: env0_def sim_blend_def sim0_def flipsim_new_def particle0_def
        macgrid0_def newgrid_def vadd_def smul_def)
  with h1 h2 h3 show ?thesis by blast
qed

subsection \<open>subtractPressureGradient (C5)\<close>

lemma subcell_pressures_spec:
  "sub \<noteq> 0 \<Longrightarrow>
     u - (fst (subcell_pressures sub Lf Lb Pf Pb) - snd (subcell_pressures sub Lf Lb Pf Pb)) / h
       = face_update_spec h u Lb Lf Pb Pf"
proof (cases "Lf * Lb < 0")
  case False
  then show ?thesis
    by (simp add: subcell_pressures_def face_update_spec_def mult.commute)
next
  case True
  assume sub: "sub \<noteq> 0"
  have "(Lf < 0 \<and> 0 < Lb) \<or> (0 < Lf \<and> Lb < 0)"
    using True by (auto simp: mult_less_0_iff)
  then show ?thesis
    using True sub
    by (auto simp: subcell_pressures_def face_update_spec_def ghost_pressure_def mult.commute)
qed

lemma if_setCell:
  "(if c then setCell g i j k v else g) = setCell g i j k (if c then v else getCell g i j k)"
  by (simp add: setCell_def getCell_def)

lemma subtractPressureGradient_faces:
  "u_x (mgrid (subtractPressureGradient s)) (a, b, c) =
     (if 0 < a \<and> a < dimx s \<and> b < dimy s \<and> c < dimz s
      then u_x (mgrid s) (a, b, c)
           - (fst (subcell_pressures (subcell s)
                     (L_grid (mgrid s) (a, b, c)) (L_grid (mgrid s) (a - 1, b, c))
                     (P_grid (mgrid s) (a, b, c)) (P_grid (mgrid s) (a - 1, b, c)))
              - snd (subcell_pressures (subcell s)
                     (L_grid (mgrid s) (a, b, c)) (L_grid (mgrid s) (a - 1, b, c))
                     (P_grid (mgrid s) (a, b, c)) (P_grid (mgrid s) (a - 1, b, c))))
             / (1 / maxd s)
      else u_x (mgrid s) (a, b, c))"
  "u_y (mgrid (subtractPressureGradient s)) (a, b, c) =
     (if a < dimx s \<and> 0 < b \<and> b < dimy s \<and> c < dimz s
      then u_y (mgrid s) (a, b, c)
           - (fst (subcell_pressures (subcell s)
                     (L_grid (mgrid s) (a, b, c)) (L_grid (mgrid s) (a, b - 1, c))
                     (P_grid (mgrid s) (a, b, c)) (P_grid (mgrid s) (a, b - 1, c)))
              - snd (subcell_pressures (subcell s)
                     (L_grid (mgrid s) (a, b, c)) (L_grid (mgrid s) (a, b - 1, c))
                     (P_grid (mgrid s) (a, b, c)) (P_grid (mgrid s) (a, b - 1, c))))
             / (1 / maxd s)
      else u_y (mgrid s) (a, b, c))"
  "u_z (mgrid (subtractPressureGradient s)) (a, b, c) =
     (if a < dimx s \<and> b < dimy s \<and> 0 < c \<and> c < dimz s
      then u_z (mgrid s) (a, b, c)
           - (fst (subcell_pressures (subcell s)
                     (L_grid (mgrid s) (a, b, c)) (L_grid (mgrid s) (a, b, c - 1))
                     (P_grid (mgrid s) (a, b, c)) (P_grid (mgrid s) (a, b, c - 1)))
              - snd (subcell_pressures (subcell s)
                     (L_grid (mgrid s) (a, b, c)) (L_grid (mgrid s) (a, b, c - 1))
                     (P_grid (mgrid s) (a, b, c)) (P_grid (mgrid s) (a, b, c - 1))))
             / (1 / maxd s)
      else u_z (mgrid s) (a, b, c))"
proof -
  let ?pp = "\<lambda>i j k i' j' k'. subcell_pressures (subcell s)
                     (getCell (L_grid (mgrid s)) i j k) (getCell (L_grid (mgrid s)) i' j' k')
                     (getCell (P_grid (mgrid s)) i j k) (getCell (P_grid (mgrid s)) i' j' k')"
  let ?h = "1 / maxd s"
  show "u_x (mgrid (subtractPressureGradient s)) (a, b, c) =
     (if 0 < a \<and> a < dimx s \<and> b < dimy s \<and> c < dimz s
      then u_x (mgrid s) (a, b, c)
           - (fst (subcell_pressures (subcell s)
                     (L_grid (mgrid s) (a, b, c)) (L_grid (mgrid s) (a - 1, b, c))
                     (P_grid (mgrid s) (a, b, c)) (P_grid (mgrid s) (a - 1, b, c)))
              - snd (subcell_pressures (subcell s)
                     (L_grid (mgrid s) (a, b, c)) (L_grid (mgrid s) (a - 1, b, c))
                     (P_grid (mgrid s) (a, b, c)) (P_grid (mgrid s) (a - 1, b, c))))
             / (1 / maxd s)
      else u_x (mgrid s) (a, b, c))"
    using for3_setCell [where f = "\<lambda>i j k old. if 0 < i \<and> i < dimx s
          then old - (fst (?pp i j k (i - 1) j k) - snd (?pp i j k (i - 1) j k)) / ?h else old"
        and g = "u_x (mgrid s)" and a = a and b = b and c = c
        and nx = "dimx s + 1" and ny = "dimy s" and nz = "dimz s"]
    by (simp add: subtractPressureGradient_def Let_def case_prod_unfold if_setCell getCell_def
        cong: if_cong)
  show "u_y (mgrid (subtractPressureGradient s)) (a, b, c) =
     (if a < dimx s \<and> 0 < b \<and> b < dimy s \<and> c < dimz s
      then u_y (mgrid s) (a, b, c)
           - (fst (subcell_pressures (subcell s)
                     (L_grid (mgrid s) (a, b, c)) (L_grid (mgrid s) (a, b - 1, c))
                     (P_grid (mgrid s) (a, b, c)) (P_grid (mgrid s) (a, b - 1, c)))
              - snd (subcell_pressures (subcell s)
                     (L_grid (mgrid s) (a, b, c)) (L_grid (mgrid s) (a, b - 1, c))
                     (P_grid (mgrid s) (a, b, c)) (P_grid (mgrid s) (a, b - 1, c))))
             / (1 / maxd s)
      else u_y (mgrid s) (a, b, c))"
    using for3_setCell [where f = "\<lambda>i j k old. if 0 < j \<and> j < dimy s
          then old - (fst (?pp i j k i (j - 1) k) - snd (?pp i j k i (j - 1) k)) / ?h else old"
        and g = "u_y (mgrid s)" and a = a and b = b and c = c
        and nx = "dimx s" and ny = "dimy s + 1" and nz = "dimz s"]
    by (simp add: subtractPressureGradient_def Let_def case_prod_unfold if_setCell getCell_def
        cong: if_cong)
  show "u_z (mgrid (subtractPressureGradient s)) (a, b, c) =
     (if a < dimx s \<and> b < dimy s \<and> 0 < c \<and> c < dimz s
      then u_z (mgrid s) (a, b, c)
           - (fst (subcell_pressures (subcell s)
                     (L_grid (mgrid s) (a, b, c)) (L_grid (mgrid s) (a, b, c - 1))
                     (P_grid (mgrid s) (a, b, c)) (P_grid (mgrid s) (a, b, c - 1)))
              - snd (subcell_pressures (subcell s)
                     (L_grid (mgrid s) (a, b, c)) (L_grid (mgrid s) (a, b, c - 1))
                     (P_grid (mgrid s) (a, b, c)) (P_grid (mgrid s) (a, b, c - 1))))
             / (1 / maxd s)
      else u_z (mgrid s) (a, b, c))"
    using for3_setCell [where f = "\<lambda>i j k old. if 0 < k \<and> k < dimz s
          then old - (fst (?pp i j k i j (k - 1)) - snd (?pp i j k i j (k - 1))) / ?h else old"
        and g = "u_z (mgrid s)" and a = a and b = b and c = c
        and nx = "dimx s" and ny = "dimy s" and nz = "dimz s + 1"]
    by (simp add: subtractPressureGradient_def Let_def case_prod_unfold if_setCell getCell_def
        cong: if_cong)
qed

text \<open>
  C5: with sub-cell correction enabled, subtractPressureGradient replaces the velocity
  of every interior face between the cells A (before the face) and B (the cell of the
  face) by \<open>u - (P_B - P_A) / h\<close> with \<open>h = 1 / max(X,Y,Z)\<close>, where, if
  \<open>L(A) * L(B) < 0\<close>, the side with \<open>L < 0\<close> keeps its pressure and the other side
  takes the ghost value \<open>L_B / min(1e-3, L_A) * P_A\<close> (for B) or
  \<open>L_A / min(1e-6, L_B) * P_B\<close> (for A), and otherwise both pressures are the cells'
  own. Faces that are not interior, and the grids P and L, are left as they are.
\<close>

theorem subtractPressureGradient_subcell:
  "subcell s \<noteq> 0 \<Longrightarrow>
     (\<forall>i j k. 0 < i \<and> i < dimx s \<and> j < dimy s \<and> k < dimz s \<longrightarrow>
        u_x (mgrid (subtractPressureGradient s)) (i, j, k) =
          face_update_spec (1 / max (max (vx (dimensions s)) (vz (dimensions s)))
                                    (vy (dimensions s)))
            (u_x (mgrid s) (i, j, k))
            (L_grid (mgrid s) (i - 1, j, k)) (L_grid (mgrid s) (i, j, k))
            (P_grid (mgrid s) (i - 1, j, k)) (P_grid (mgrid s) (i, j, k))) \<and>
     (\<forall>i j k. i < dimx s \<and> 0 < j \<and> j < dimy s \<and> k < dimz s \<longrightarrow>
        u_y (mgrid (subtractPressureGradient s)) (i, j, k) =
          face_update_spec (1 / max (max (vx (dimensions s)) (vz (dimensions s)))
                                    (vy (dimensions s)))
            (u_y (mgrid s) (i, j, k))
            (L_grid (mgrid s) (i, j - 1, k)) (L_grid (mgrid s) (i, j, k))
            (P_grid (mgrid s) (i, j - 1, k)) (P_grid (mgrid s) (i, j, k))) \<and>
     (\<forall>i j k. i < dimx s \<and> j < dimy s \<and> 0 < k \<and> k < dimz s \<longrightarrow>
        u_z (mgrid (subtractPressureGradient s)) (i, j, k) =
          face_update_spec (1 / max (max (vx (dimensions s)) (vz (dimensions s)))
                                    (vy (dimensions s)))
            (u_z (mgrid s) (i, j, k))
            (L_grid (mgrid s) (i, j, k - 1)) (L_grid (mgrid s) (i, j, k))
            (P_grid (mgrid s) (i, j, k - 1)) (P_grid (mgrid s) (i, j, k))) \<and>
     (\<forall>i j k. \<not> (0 < i \<and> i < dimx s \<and> j < dimy s \<and> k < dimz s) \<longrightarrow>
        u_x (mgrid (subtractPressureGradient s)) (i, j, k) = u_x (mgrid s) (i, j, k)) \<and>
     (\<forall>i j k. \<not> (i < dimx s \<and> 0 < j \<and> j < dimy s \<and> k < dimz s) \<longrightarrow>
        u_y (mgrid (subtractPressureGradient s)) (i, j, k) = u_y (mgrid s) (i, j, k)) \<and>
     (\<forall>i j k. \<not> (i < dimx s \<and> j < dimy s \<and> 0 < k \<and> k < dimz s) \<longrightarrow>
        u_z (mgrid (subtractPressureGradient s)) (i, j, k) = u_z (mgrid s) (i, j, k)) \<and>
     P_grid (mgrid (subtractPressureGradient s)) = P_grid (mgrid s) \<and>
     L_grid (mgrid (subtractPressureGradient s)) = L_grid (mgrid s)"
proof -
  assume sub: "subcell s \<noteq> 0"
  note sp = subcell_pressures_spec [OF sub]
  have x: "\<forall>i j k. 0 < i \<and> i < dimx s \<and> j < dimy s \<and> k < dimz s \<longrightarrow>
        u_x (mgrid (subtractPressureGradient s)) (i, j, k) =
          face_update_spec (1 / max (max (vx (dimensions s)) (vz (dimensions s)))
                                    (vy (dimensions s)))
            (u_x (mgrid s) (i, j, k))
            (L_grid (mgrid s) (i - 1, j, k)) (L_grid (mgrid s) (i, j, k))
            (P_grid (mgrid s) (i - 1, j, k)) (P_grid (mgrid s) (i, j, k))"
    unfolding subtractPressureGradient_faces sp by (simp add: maxd_def)
  have y: "\<forall>i j k. i < dimx s \<and> 0 < j \<and> j < dimy s \<and> k < dimz s \<longrightarrow>
        u_y (mgrid (subtractPressureGradient s)) (i, j, k) =
          face_update_spec (1 / max (max (vx (dimensions s)) (vz (dimensions s)))
                                    (vy (dimensions s)))
            (u_y (mgrid s) (i, j, k))
            (L_grid (mgrid s) (i, j - 1, k)) (L_grid (mgrid s) (i, j, k))
            (P_grid (mgrid s) (i, j - 1, k)) (P_grid (mgrid s) (i, j, k))"
    unfolding subtractPressureGradient_faces sp by (simp add: maxd_def)
  have z: "\<forall>i j k. i < dimx s \<and> j < dimy s \<and> 0 < k \<and> k < dimz s \<longrightarrow>
        u_z (mgrid (subtractPressureGradient s)) (i, j, k) =
          face_update_spec (1 / max (max (vx (dimensions s)) (vz (dimensions s)))
                                    (vy (dimensions s)))
            (u_z (mgrid s) (i, j, k))
            (L_grid (mgrid s) (i, j, k - 1)) (L_grid (mgrid s) (i, j, k))
            (P_grid (mgrid s) (i, j, k - 1)) (P_grid (mgrid s) (i, j, k))"
    unfolding subtractPressureGradient_faces sp by (simp add: maxd_def)
  have nx: "\<forall>i j k. \<not> (0 < i \<and> i < dimx s \<and> j < dimy s \<and> k < dimz s) \<longrightarrow>
        u_x (mgrid (subtractPressureGradient s)) (i, j, k) = u_x (mgrid s) (i, j, k)"
    unfolding subtractPressureGradient_faces by simp
  have ny: "\<forall>i j k. \<not> (i < dimx s \<and> 0 < j \<and> j < dimy s \<and> k < dimz s) \<longrightarrow>
        u_y (mgrid (subtractPressureGradient s)) (i, j, k) = u_y (mgrid s) (i, j, k)"
    unfolding subtractPressureGradient_faces by simp
  have nz: "\<forall>i j k. \<not> (i < dimx s \<and> j < dimy s \<and> 0 < k \<and> k < dimz s) \<longrightarrow>
        u_z (mgrid (subtractPressureGradient s)) (i, j, k) = u_z (mgrid s) (i, j, k)"
    unfolding subtractPressureGradient_faces by simp
  have pl: "P_grid (mgrid (subtractPressureGradient s)) = P_grid (mgrid s)"
    "L_grid (mgrid (subtractPressureGradient s)) = L_grid (mgrid s)"
    by (simp_all add: subtractPressureGradient_def Let_def)
  from x y z nx ny nz pl show ?thesis by blast
qed

theorem subtractPressureGradient_subcell_witness:
  "subcell sim_pressure \<noteq> 0 \<and>
   L_grid (mgrid sim_pressure) (0, 0, 0) * L_grid (mgrid sim_pressure) (1, 0, 0) < 0 \<and>
   u_x (mgrid (subtractPressureGradient sim_pressure)) (1, 0, 0) = 16 \<and>
   u_x (mgrid (subtractPressureGradient sim_pressure)) (2, 0, 0) = 0"
proof -
  have h: "subcell sim_pressure \<noteq> 0"
    by (simp add: sim_pressure_def sim0_def flipsim_new_def)
  have d: "dimx sim_pressure = 4" "dimy sim_pressure = 4" "dimz sim_pressure = 4"
    by (simp_all add: sim_pressure_def sim0_def flipsim_new_def dimx_def dimy_def dimz_def)
  note t = subtractPressureGradient_subcell [OF h, THEN conjunct1, rule_format]
  have a: "u_x (mgrid (subtractPressureGradient sim_pressure)) (1, 0, 0) = 16"
    using t [of 1 0 0] d
    by (simp add: sim_pressure_def sim0_def flipsim_new_def macgrid0_def newgrid_def
        face_update_spec_def ghost_pressure_def)
  have b: "u_x (mgrid (subtractPressureGradient sim_pressure)) (2, 0, 0) = 0"
    using t [of 2 0 0] d
    by (simp add: sim_pressure_def sim0_def flipsim_new_def macgrid0_def newgrid_def
        face_update_spec_def ghost_pressure_def)
  have c: "L_grid (mgrid sim_pressure) (0, 0, 0) * L_grid (mgrid sim_pressure) (1, 0, 0) < 0"
    by (simp add: sim_pressure_def macgrid0_def)
  from h a b c show ?thesis by blast
qed

subsection \<open>extrapolateVelocity: what the sweep writes\<close>

lemma fold_pair_cells:
  "fold (\<lambda>c (m, w). (m(c := f c), w(c := g c))) cs (m, w) =
     (\<lambda>a. if a \<in> set cs then f a else m a, \<lambda>a. if a \<in> set cs then g a else w a)"
proof (induction cs arbitrary: m w)
  case Nil
  show ?case by simp
next
  case (Cons c cs)
  show ?case
    unfolding fold_Cons comp_def prod.case Cons.IH
    by (auto simp: fun_eq_iff)
qed

lemma for3_pair_setCell:
  "for3 nx ny nz (\<lambda>i j k (m, w). (setCell m i j k (f i j k), setCell w i j k (g i j k))) (m, w) =
     (\<lambda>(a, b, c). if a < nx \<and> b < ny \<and> c < nz then f a b c else m (a, b, c),
      \<lambda>(a, b, c). if a < nx \<and> b < ny \<and> c < nz then g a b c else w (a, b, c))"
proof -
  have eq: "(\<lambda>(i, j, k) (m, w). (setCell m i j k (f i j k), setCell w i j k (g i j k)))
      = (\<lambda>c (m, w). (m(c := (\<lambda>(i, j, k). f i j k) c), w(c := (\<lambda>(i, j, k). g i j k) c)))"
    by (auto simp: setCell_def fun_eq_iff)
  show ?thesis
    unfolding for3_flat eq fold_pair_cells
    by (auto simp: fun_eq_iff set_cells3)
qed

lemma mark_faces_x_eq:
  "mark_faces_x a x y z = (valid_face a x y z 0, wall_face a x y z 0)"
  unfolding mark_faces_x_def for3_pair_setCell
  by (auto simp: fun_eq_iff valid_face_def wall_face_def face_in_range_def newgrid_def getCell_def)

lemma mark_faces_y_eq:
  "mark_faces_y a x y z = (valid_face a x y z 1, wall_face a x y z 1)"
  unfolding mark_faces_y_def for3_pair_setCell
  by (auto simp: fun_eq_iff valid_face_def wall_face_def face_in_range_def newgrid_def getCell_def)

lemma mark_faces_z_eq:
  "mark_faces_z a x y z = (valid_face a x y z 2, wall_face a x y z 2)"
  unfolding mark_faces_z_def for3_pair_setCell
  by (auto simp: fun_eq_iff valid_face_def wall_face_def face_in_range_def newgrid_def getCell_def)

lemma fold_count_sum:
  "fold (\<lambda>q (w, s). if Pq q then (w + 1, s + f q) else (w, s)) qs (w0 :: nat, s0 :: real) =
     (w0 + length (filter Pq qs), s0 + sum_list (map f (filter Pq qs)))"
  by (induction qs arbitrary: w0 s0) auto

lemma extrapolate_face_eq:
  assumes n: "n < 3"
  shows "extrapolate_face x y z
           [valid_face a x y z 0, valid_face a x y z 1, valid_face a x y z 2]
           [wall_face a x y z 0, wall_face a x y z 1, wall_face a x y z 2] i j k n m =
         (if \<not> (n \<noteq> 0 \<and> i > usub x 1) \<and> \<not> (n \<noteq> 1 \<and> j > usub y 1) \<and>
             \<not> (n \<noteq> 2 \<and> k > usub z 1) \<and>
             \<not> valid_face a x y z n (i, j, k) \<and> wall_face a x y z n (i, j, k) \<and>
             valid_neighbors a x y z n (i, j, k) \<noteq> []
          then (if n = 0 then m\<lparr>u_x := (u_x m)((i, j, k) := extrap_value a x y z m n (i, j, k))\<rparr>
                else if n = 1
                then m\<lparr>u_y := (u_y m)((i, j, k) := extrap_value a x y z m n (i, j, k))\<rparr>
                else m\<lparr>u_z := (u_z m)((i, j, k) := extrap_value a x y z m n (i, j, k))\<rparr>)
          else m)"
proof -
  let ?mark = "[valid_face a x y z 0, valid_face a x y z 1, valid_face a x y z 2]"
  let ?Pq = "\<lambda>q. face_in_range x y z n q \<and> valid_face a x y z n q"
  have n3: "n = 0 \<or> n = 1 \<or> n = 2"
    using n by arith
  have mk: "?mark ! n = valid_face a x y z n"
    using n3 by auto
  have wm: "[wall_face a x y z 0, wall_face a x y z 1, wall_face a x y z 2] ! n
              = wall_face a x y z n"
    using n3 by auto
  have body: "(\<lambda>(q0, q1, q2) (wsum, sum).
                       if 0 \<le> q0 \<and> q0 < x + of_bool (n = 0) \<and> 0 \<le> q1 \<and>
                          q1 < y + of_bool (n = 1) \<and> 0 \<le> q2 \<and> q2 < z + of_bool (n = 2)
                       then
                         if getCell (valid_face a x y z n) q0 q1 q2 then
                           (wsum + 1,
                            if n = 0 then sum + getCell (u_x m) q0 q1 q2
                            else if n = 1 then sum + getCell (u_y m) q0 q1 q2
                            else if n = 2 then sum + getCell (u_z m) q0 q1 q2
                            else sum)
                         else (wsum, sum)
                       else (wsum, sum))
      = (\<lambda>q (w :: nat, s :: real). if ?Pq q then (w + 1, s + face_vel m n q) else (w, s))"
    using n3
    by (auto simp: fun_eq_iff face_in_range_def getCell_def face_vel_def)
  have fold_eq: "fold (\<lambda>q (w :: nat, s :: real).
                    if ?Pq q then (w + 1, s + face_vel m n q) else (w, s))
             [(usub i 1, j, k), (i + 1, j, k), (i, usub j 1, k),
              (i, j + 1, k), (i, j, usub k 1), (i, j, k + 1)] (0, 0)
        = (length (valid_neighbors a x y z n (i, j, k)),
           sum_list (map (face_vel m n) (valid_neighbors a x y z n (i, j, k))))"
    unfolding fold_count_sum valid_neighbors_def by simp
  have unf: "extrapolate_face x y z ?mark
           [wall_face a x y z 0, wall_face a x y z 1, wall_face a x y z 2] i j k n m =
     (if n \<noteq> 0 \<and> i > usub x 1 then m
      else if n \<noteq> 1 \<and> j > usub y 1 then m
      else if n \<noteq> 2 \<and> k > usub z 1 then m
      else if \<not> getCell (valid_face a x y z n) i j k \<and> getCell (wall_face a x y z n) i j k then
        (if length (valid_neighbors a x y z n (i, j, k)) \<noteq> 0 then
              (if n = 0 then m\<lparr>u_x := setCell (u_x m) i j k (extrap_value a x y z m n (i, j, k))\<rparr>
               else if n = 1 then m\<lparr>u_y := setCell (u_y m) i j k (extrap_value a x y z m n (i, j, k))\<rparr>
               else if n = 2 then m\<lparr>u_z := setCell (u_z m) i j k (extrap_value a x y z m n (i, j, k))\<rparr>
               else m)
            else m)
      else m)"
    unfolding extrapolate_face_def mk wm
    unfolding Let_def body fold_eq prod.case extrap_value_def ..
  from n3 show ?thesis
  proof (elim disjE)
    assume "n = 0"
    then show ?thesis unfolding unf by (simp add: setCell_def getCell_def)
  next
    assume "n = 1"
    then show ?thesis unfolding unf by (simp add: setCell_def getCell_def)
  next
    assume "n = 2"
    then show ?thesis unfolding unf by (simp add: setCell_def getCell_def)
  qed
qed

lemma fold_preserve:
  assumes "\<And>c s. c \<in> set cs \<Longrightarrow> h (body c s) = h s"
  shows "h (fold body cs s) = h s"
  using assms by (induction cs arbitrary: s) auto

lemma extrapolateVelocity_mgrid:
  "mgrid (extrapolateVelocity s) =
     fold (\<lambda>(c, n). case c of (i, j, k) \<Rightarrow>
             extrapolate_face (dimx s) (dimy s) (dimz s)
               [valid_face (A_grid (mgrid s)) (dimx s) (dimy s) (dimz s) 0,
                valid_face (A_grid (mgrid s)) (dimx s) (dimy s) (dimz s) 1,
                valid_face (A_grid (mgrid s)) (dimx s) (dimy s) (dimz s) 2]
               [wall_face (A_grid (mgrid s)) (dimx s) (dimy s) (dimz s) 0,
                wall_face (A_grid (mgrid s)) (dimx s) (dimy s) (dimz s) 1,
                wall_face (A_grid (mgrid s)) (dimx s) (dimy s) (dimz s) 2] i j k n)
          (List.product (cells3 (dimx s + 1) (dimy s + 1) (dimz s + 1)) [0..<3])
          (mgrid s)"
proof -
  let ?F = "\<lambda>c n. case c of (i, j, k) \<Rightarrow>
             extrapolate_face (dimx s) (dimy s) (dimz s)
               [valid_face (A_grid (mgrid s)) (dimx s) (dimy s) (dimz s) 0,
                valid_face (A_grid (mgrid s)) (dimx s) (dimy s) (dimz s) 1,
                valid_face (A_grid (mgrid s)) (dimx s) (dimy s) (dimz s) 2]
               [wall_face (A_grid (mgrid s)) (dimx s) (dimy s) (dimz s) 0,
                wall_face (A_grid (mgrid s)) (dimx s) (dimy s) (dimz s) 1,
                wall_face (A_grid (mgrid s)) (dimx s) (dimy s) (dimz s) 2] i j k n"
  have inner: "(\<lambda>(i, j, k). fold (?F (i, j, k)) [0..<3]) = (\<lambda>c. fold (?F c) [0..<3])"
    by (simp add: fun_eq_iff)
  have "mgrid (extrapolateVelocity s) =
          fold (\<lambda>(i, j, k). fold (?F (i, j, k)) [0..<3])
            (cells3 (dimx s + 1) (dimy s + 1) (dimz s + 1)) (mgrid s)"
    unfolding extrapolateVelocity_def Let_def mark_faces_x_eq mark_faces_y_eq mark_faces_z_eq
      prod.case for3_flat
    by simp
  also have "\<dots> = fold (\<lambda>(c, n). ?F c n)
                 (List.product (cells3 (dimx s + 1) (dimy s + 1) (dimz s + 1)) [0..<3])
                 (mgrid s)"
    unfolding inner fold_product [where f = ?F] ..
  finally show ?thesis .
qed

lemma extrapolateVelocity_frame:
  "extrapolateVelocity s = s\<lparr>mgrid := mgrid (extrapolateVelocity s)\<rparr>"
  by (simp add: extrapolateVelocity_def Let_def case_prod_unfold)

lemma face_vel_extrapolate_face:
  assumes n: "n < 3"
  shows "face_vel (extrapolate_face x y z
           [valid_face a x y z 0, valid_face a x y z 1, valid_face a x y z 2]
           [wall_face a x y z 0, wall_face a x y z 1, wall_face a x y z 2] i j k n m) n' c' =
         (if (c', n') = ((i, j, k), n) \<and>
             \<not> (n \<noteq> 0 \<and> i > usub x 1) \<and> \<not> (n \<noteq> 1 \<and> j > usub y 1) \<and>
             \<not> (n \<noteq> 2 \<and> k > usub z 1) \<and>
             \<not> valid_face a x y z n (i, j, k) \<and> wall_face a x y z n (i, j, k) \<and>
             valid_neighbors a x y z n (i, j, k) \<noteq> []
          then extrap_value a x y z m n (i, j, k) else face_vel m n' c')"
proof -
  have n3: "n = 0 \<or> n = 1 \<or> n = 2"
    using n by arith
  show ?thesis
    unfolding extrapolate_face_eq [OF n]
    using n3 by (auto simp: face_vel_def)
qed

lemma rest_extrapolate_face:
  assumes n: "n < 3"
  shows "A_grid (extrapolate_face x y z
           [valid_face a x y z 0, valid_face a x y z 1, valid_face a x y z 2]
           [wall_face a x y z 0, wall_face a x y z 1, wall_face a x y z 2] i j k n m) = A_grid m"
    and "P_grid (extrapolate_face x y z
           [valid_face a x y z 0, valid_face a x y z 1, valid_face a x y z 2]
           [wall_face a x y z 0, wall_face a x y z 1, wall_face a x y z 2] i j k n m) = P_grid m"
    and "D_grid (extrapolate_face x y z
           [valid_face a x y z 0, valid_face a x y z 1, valid_face a x y z 2]
           [wall_face a x y z 0, wall_face a x y z 1, wall_face a x y z 2] i j k n m) = D_grid m"
    and "L_grid (extrapolate_face x y z
           [valid_face a x y z 0, valid_face a x y z 1, valid_face a x y z 2]
           [wall_face a x y z 0, wall_face a x y z 1, wall_face a x y z 2] i j k n m) = L_grid m"
  unfolding extrapolate_face_eq [OF n] by simp_all

lemma extrap_value_cong:
  assumes "\<And>n c. valid_face a x y z n c \<Longrightarrow> face_vel m n c = face_vel m' n c"
  shows "extrap_value a x y z m n c = extrap_value a x y z m' n c"
proof -
  have "\<forall>q \<in> set (valid_neighbors a x y z n c). valid_face a x y z n q"
    by (cases c) (auto simp: valid_neighbors_def)
  then have meq: "map (face_vel m n) (valid_neighbors a x y z n c)
      = map (face_vel m' n) (valid_neighbors a x y z n c)"
    by (simp add: assms)
  show ?thesis unfolding extrap_value_def meq ..
qed

lemma extrapolateVelocity_faces:
  "face_vel (mgrid (extrapolateVelocity s)) n c =
     (if extrap_writes (A_grid (mgrid s)) (dimx s) (dimy s) (dimz s) n c
      then extrap_value (A_grid (mgrid s)) (dimx s) (dimy s) (dimz s) (mgrid s) n c
      else face_vel (mgrid s) n c)"
proof -
  let ?a = "A_grid (mgrid s)" and ?x = "dimx s" and ?y = "dimy s" and ?z = "dimz s"
  let ?cs = "List.product (cells3 (?x + 1) (?y + 1) (?z + 1)) [0..<3]"
  let ?body = "\<lambda>(c, n). case c of (i, j, k) \<Rightarrow>
             extrapolate_face ?x ?y ?z
               [valid_face ?a ?x ?y ?z 0, valid_face ?a ?x ?y ?z 1, valid_face ?a ?x ?y ?z 2]
               [wall_face ?a ?x ?y ?z 0, wall_face ?a ?x ?y ?z 1, wall_face ?a ?x ?y ?z 2]
               i j k n"
  let ?get = "\<lambda>m (c, n). face_vel m n c"
  let ?W = "\<lambda>(c, n). extrap_writes ?a ?x ?y ?z n c"
  let ?v = "\<lambda>m (c, n). extrap_value ?a ?x ?y ?z m n c"
  let ?R = "\<lambda>(c, n). valid_face ?a ?x ?y ?z n c"
  have step: "\<And>c m a'. c \<in> set ?cs \<Longrightarrow>
                ?get (?body c m) a' = (if a' = c \<and> ?W c then ?v m c else ?get m a')"
  proof -
    fix c a' :: "(nat \<times> nat \<times> nat) \<times> nat" and m
    assume c: "c \<in> set ?cs"
    obtain i j k n where ceq: "c = ((i, j, k), n)"
      by (metis prod.exhaust)
    obtain c' n' where aeq: "a' = (c', n')"
      by (metis prod.exhaust)
    have n: "n < 3" and r: "i < ?x + 1" "j < ?y + 1" "k < ?z + 1"
      using c by (auto simp: ceq set_cells3)
    show "?get (?body c m) a' = (if a' = c \<and> ?W c then ?v m c else ?get m a')"
      unfolding ceq aeq prod.case face_vel_extrapolate_face [OF n]
      using n r by (simp add: extrap_writes_def swept_def)
  qed
  have frame: "\<And>m m' c. (\<And>r. ?R r \<Longrightarrow> ?get m r = ?get m' r) \<Longrightarrow> ?v m c = ?v m' c"
  proof -
    fix m m' and c :: "(nat \<times> nat \<times> nat) \<times> nat"
    assume ag: "\<And>r. ?R r \<Longrightarrow> ?get m r = ?get m' r"
    have ag': "face_vel m n q = face_vel m' n q" if "valid_face ?a ?x ?y ?z n q" for n q
      using ag [of "(q, n)"] that by simp
    obtain c' n' where ceq: "c = (c', n')"
      by (metis prod.exhaust)
    show "?v m c = ?v m' c"
      unfolding ceq prod.case by (rule extrap_value_cong) (rule ag')
  qed
  have wr: "\<And>c. ?W c \<Longrightarrow> \<not> ?R c"
    by (auto simp: extrap_writes_def)
  have "?get (fold ?body ?cs (mgrid s)) (c, n) =
          (if (c, n) \<in> set ?cs \<and> ?W (c, n) then ?v (mgrid s) (c, n) else ?get (mgrid s) (c, n))"
  proof (rule fold_frozen [where get = ?get and W = ?W and v = ?v and R = ?R])
    show "distinct ?cs"
      by (simp add: distinct_product distinct_cells3)
  qed (rule step, assumption, rule frame, assumption, erule wr, rule refl)
  moreover have "?W (c, n) \<Longrightarrow> (c, n) \<in> set ?cs"
    by (cases c) (auto simp: extrap_writes_def swept_def set_cells3)
  ultimately show ?thesis
    unfolding extrapolateVelocity_mgrid prod.case by (cases "?W (c, n)") simp_all
qed

lemma extrapolateVelocity_rest:
  "A_grid (mgrid (extrapolateVelocity s)) = A_grid (mgrid s)"
  "P_grid (mgrid (extrapolateVelocity s)) = P_grid (mgrid s)"
  "D_grid (mgrid (extrapolateVelocity s)) = D_grid (mgrid s)"
  "L_grid (mgrid (extrapolateVelocity s)) = L_grid (mgrid s)"
proof -
  let ?a = "A_grid (mgrid s)" and ?x = "dimx s" and ?y = "dimy s" and ?z = "dimz s"
  let ?cs = "List.product (cells3 (?x + 1) (?y + 1) (?z + 1)) [0..<3]"
  let ?body = "\<lambda>(c, n). case c of (i, j, k) \<Rightarrow>
             extrapolate_face ?x ?y ?z
               [valid_face ?a ?x ?y ?z 0, valid_face ?a ?x ?y ?z 1, valid_face ?a ?x ?y ?z 2]
               [wall_face ?a ?x ?y ?z 0, wall_face ?a ?x ?y ?z 1, wall_face ?a ?x ?y ?z 2]
               i j k n"
  have pres: "A_grid (?body c m) = A_grid m \<and> P_grid (?body c m) = P_grid m \<and>
              D_grid (?body c m) = D_grid m \<and> L_grid (?body c m) = L_grid m"
    if c: "c \<in> set ?cs" for c m
  proof -
    obtain i j k n where ceq: "c = ((i, j, k), n)"
      by (metis prod.exhaust)
    have n: "n < 3"
      using c by (auto simp: ceq)
    show ?thesis
      unfolding ceq prod.case rest_extrapolate_face [OF n] by simp
  qed
  show "A_grid (mgrid (extrapolateVelocity s)) = A_grid (mgrid s)"
    unfolding extrapolateVelocity_mgrid
    by (rule fold_preserve [where h = A_grid]) (erule pres [THEN conjunct1])
  show "P_grid (mgrid (extrapolateVelocity s)) = P_grid (mgrid s)"
    unfolding extrapolateVelocity_mgrid
    by (rule fold_preserve [where h = P_grid]) (erule pres [THEN conjunct2, THEN conjunct1])
  show "D_grid (mgrid (extrapolateVelocity s)) = D_grid (mgrid s)"
    unfolding extrapolateVelocity_mgrid
    by (rule fold_preserve [where h = D_grid]) (erule pres [THEN conjunct2, THEN conjunct2, THEN conjunct1])
  show "L_grid (mgrid (extrapolateVelocity s)) = L_grid (mgrid s)"
    unfolding extrapolateVelocity_mgrid
    by (rule fold_preserve [where h = L_grid]) (erule pres [THEN conjunct2, THEN conjunct2, THEN conjunct2])
qed

lemma usub_1:
  assumes "0 < i" and "i \<le> 4294967296"
  shows "usub i 1 = i - 1"
proof -
  have "i + 4294967296 - 1 = (i - 1) + 4294967296"
    using assms by simp
  then have "usub i 1 = ((i - 1) + 4294967296) mod 4294967296"
    by (simp add: usub_def)
  also have "\<dots> = (i - 1) mod 4294967296"
    by (rule mod_add_self2)
  also have "\<dots> = i - 1"
    using assms by simp
  finally show ?thesis .
qed

lemma usub_0: "usub 0 1 = 4294967295"
  by (simp add: usub_def)

lemma usub_one:
  assumes "i \<le> 4294967296"
  shows "usub i 1 = (if 0 < i then i - 1 else 4294967295)"
proof (cases "0 < i")
  case True
  then show ?thesis
    using usub_1 [OF True assms] by (simp only: if_True)
next
  case False
  then have "i = 0" by simp
  then show ?thesis
    using usub_0 by (simp only: less_irrefl if_False)
qed

lemma valid_neighbors_axis:
  assumes d: "x < 4294967295" "y < 4294967295" "z < 4294967295"
    and c: "face_in_range x y z n c"
  shows "valid_neighbors a x y z n c = filter (valid_face a x y z n) (axis_neighbors c)"
proof -
  obtain i j k where ceq: "c = (i, j, k)"
    by (metis prod.exhaust)
  have r: "i < 4294967296" "j < 4294967296" "k < 4294967296"
    using c d by (auto simp: ceq face_in_range_def of_bool_def split: if_splits)
  have out: "\<not> valid_face a x y z n (4294967295, q1, q2)"
    "\<not> valid_face a x y z n (q0, 4294967295, q2)"
    "\<not> valid_face a x y z n (q0, q1, 4294967295)" for q0 q1 q2
    using d by (auto simp: valid_face_def face_in_range_def)
  have i: "usub i 1 = (if 0 < i then i - 1 else 4294967295)"
    by (rule usub_one) (use r in simp)
  have j: "usub j 1 = (if 0 < j then j - 1 else 4294967295)"
    by (rule usub_one) (use r in simp)
  have k: "usub k 1 = (if 0 < k then k - 1 else 4294967295)"
    by (rule usub_one) (use r in simp)
  have v: "(face_in_range x y z n q \<and> valid_face a x y z n q) = valid_face a x y z n q" for q
    by (cases q) (auto simp: valid_face_def)
  show ?thesis
    unfolding ceq valid_neighbors_def axis_neighbors_def prod.case v i j k
    by (simp add: out)
qed

lemma wall_face_swept:
  assumes d: "x < 4294967295" "y < 4294967295" "z < 4294967295"
    and w: "wall_face a x y z n c"
  shows "swept x y z n c"
proof -
  obtain i j k where ceq: "c = (i, j, k)"
    by (metis prod.exhaust)
  have n: "n < 3" and r: "face_in_range x y z n (i, j, k)"
    using w by (auto simp: wall_face_def ceq)
  have n3: "n = 0 \<or> n = 1 \<or> n = 2"
    using n by arith
  have ux: "usub x 1 = (if 0 < x then x - 1 else 4294967295)"
    by (rule usub_one) (use d in simp)
  have uy: "usub y 1 = (if 0 < y then y - 1 else 4294967295)"
    by (rule usub_one) (use d in simp)
  have uz: "usub z 1 = (if 0 < z then z - 1 else 4294967295)"
    by (rule usub_one) (use d in simp)
  from n3 show ?thesis
  proof (elim disjE)
    assume "n = 0"
    then show ?thesis
      using r d unfolding swept_def ceq face_in_range_def prod.case ux uy uz
      by (auto simp: of_bool_def split: if_splits)
  next
    assume "n = 1"
    then show ?thesis
      using r d unfolding swept_def ceq face_in_range_def prod.case ux uy uz
      by (auto simp: of_bool_def split: if_splits)
  next
    assume "n = 2"
    then show ?thesis
      using r d unfolding swept_def ceq face_in_range_def prod.case ux uy uz
      by (auto simp: of_bool_def split: if_splits)
  qed
qed

lemma sim_band_dims: "dimx sim_band = 2" "dimy sim_band = 1" "dimz sim_band = 1"
  by (simp_all add: sim_band_def dimx_def dimy_def dimz_def)

lemma sim_wall_dims: "dimx sim_wall = 2" "dimy sim_wall = 1" "dimz sim_wall = 1"
  by (simp_all add: sim_wall_def dimx_def dimy_def dimz_def)

lemma usub_numerals: "usub 2 1 = 1" "usub 1 1 = 0" "usub 0 1 = 4294967295"
  by (simp_all add: usub_def)

subsection \<open>extrapolateVelocity (C3)\<close>

text \<open>
  C3, as stated: a face with valid false and wall false is set to the mean of its valid
  neighbours, and a face with wall true is left untouched. The test in the sweep is
  \<open>!mark && wallmark\<close>, the other way round. On a 2 x 1 x 1 grid with cell 0 FLUID
  and cell 1 AIR, the x-face 2 has valid false and wall false and one valid neighbour
  (x-face 1, velocity 1), and keeps its velocity 0; with cell 1 SOLID the same face
  has wall true and its velocity changes from 0 to 1.
\<close>

theorem extrapolateVelocity_band_counterexample:
  "\<not> valid_face (A_grid (mgrid sim_band)) (dimx sim_band) (dimy sim_band) (dimz sim_band)
       0 (2, 0, 0) \<and>
   \<not> wall_face (A_grid (mgrid sim_band)) (dimx sim_band) (dimy sim_band) (dimz sim_band)
       0 (2, 0, 0) \<and>
   filter (valid_face (A_grid (mgrid sim_band)) (dimx sim_band) (dimy sim_band)
             (dimz sim_band) 0) (axis_neighbors (2, 0, 0)) = [(1, 0, 0)] \<and>
   u_x (mgrid sim_band) (1, 0, 0) = 1 \<and>
   u_x (mgrid (extrapolateVelocity sim_band)) (2, 0, 0) = 0 \<and>
   wall_face (A_grid (mgrid sim_wall)) (dimx sim_wall) (dimy sim_wall) (dimz sim_wall)
       0 (2, 0, 0) \<and>
   u_x (mgrid sim_wall) (2, 0, 0) = 0 \<and>
   u_x (mgrid (extrapolateVelocity sim_wall)) (2, 0, 0) = 1"
proof -
  have a: "A_grid (mgrid sim_band) = (newgrid AIR)((0, 0, 0) := FLUID)"
    and u: "u_x (mgrid sim_band) = (newgrid 0)((1, 0, 0) := 1)"
    by (simp_all add: sim_band_def macgrid0_def)
  have a': "A_grid (mgrid sim_wall) = (newgrid AIR)((0, 0, 0) := FLUID, (1, 0, 0) := SOLID)"
    and u': "u_x (mgrid sim_wall) = (newgrid 0)((1, 0, 0) := 1)"
    by (simp_all add: sim_wall_def macgrid0_def)
  have 1: "\<not> valid_face (A_grid (mgrid sim_band)) (dimx sim_band) (dimy sim_band)
              (dimz sim_band) 0 (2, 0, 0)"
    unfolding a sim_band_dims by (simp add: valid_face_def face_in_range_def newgrid_def)
  have 2: "\<not> wall_face (A_grid (mgrid sim_band)) (dimx sim_band) (dimy sim_band)
              (dimz sim_band) 0 (2, 0, 0)"
    unfolding a sim_band_dims by (simp add: wall_face_def face_in_range_def newgrid_def)
  have 3: "filter (valid_face (A_grid (mgrid sim_band)) (dimx sim_band) (dimy sim_band)
             (dimz sim_band) 0) (axis_neighbors (2, 0, 0)) = [(1, 0, 0)]"
    unfolding a sim_band_dims
    by (simp add: axis_neighbors_def valid_face_def face_in_range_def newgrid_def)
  have 4: "u_x (mgrid sim_band) (1, 0, 0) = 1"
    unfolding u by simp
  have 5: "u_x (mgrid (extrapolateVelocity sim_band)) (2, 0, 0) = 0"
    using extrapolateVelocity_faces [of sim_band 0 "(2, 0, 0)"] 2
    unfolding extrap_writes_def by (simp add: face_vel_def u newgrid_def)
  have 6: "wall_face (A_grid (mgrid sim_wall)) (dimx sim_wall) (dimy sim_wall) (dimz sim_wall)
             0 (2, 0, 0)"
    unfolding a' sim_wall_dims by (simp add: wall_face_def face_in_range_def newgrid_def)
  have 7: "u_x (mgrid sim_wall) (2, 0, 0) = 0"
    unfolding u' by (simp add: newgrid_def)
  have nv: "\<not> valid_face (A_grid (mgrid sim_wall)) (dimx sim_wall) (dimy sim_wall)
              (dimz sim_wall) 0 (2, 0, 0)"
    unfolding a' sim_wall_dims by (simp add: valid_face_def face_in_range_def newgrid_def)
  have sw: "swept (dimx sim_wall) (dimy sim_wall) (dimz sim_wall) 0 (2, 0, 0)"
    unfolding sim_wall_dims swept_def prod.case usub_numerals by simp
  have vn: "valid_neighbors (A_grid (mgrid sim_wall)) (dimx sim_wall) (dimy sim_wall)
              (dimz sim_wall) 0 (2, 0, 0) = [(1, 0, 0)]"
    unfolding a' sim_wall_dims valid_neighbors_def prod.case usub_numerals
    by (simp add: valid_face_def face_in_range_def newgrid_def)
  have 8: "u_x (mgrid (extrapolateVelocity sim_wall)) (2, 0, 0) = 1"
    using extrapolateVelocity_faces [of sim_wall 0 "(2, 0, 0)"] 6 nv sw
    unfolding extrap_writes_def extrap_value_def vn
    by (simp add: face_vel_def u')
  from 1 2 3 4 5 6 7 8 show ?thesis by blast
qed

text \<open>
  C3, amended: in extrapolateVelocity (dimensions below \<open>2^32 - 1\<close>), every staggered
  face whose valid indicator is false and whose wall indicator is TRUE (each side of
  the face is a SOLID cell or lies outside the grid) gets the mean of the velocities of
  its in-range axis-aligned neighbour faces whose valid indicator is true, and keeps
  its prior value when there is no such neighbour; every face whose valid indicator is
  true or whose wall indicator is false is left untouched.
\<close>

theorem extrapolateVelocity_wall_faces:
  "dimx s < 4294967295 \<and> dimy s < 4294967295 \<and> dimz s < 4294967295 \<Longrightarrow>
     (\<forall>n c. \<not> valid_face (A_grid (mgrid s)) (dimx s) (dimy s) (dimz s) n c \<and>
             wall_face (A_grid (mgrid s)) (dimx s) (dimy s) (dimz s) n c \<longrightarrow>
        face_vel (mgrid (extrapolateVelocity s)) n c =
          (let nb = filter (valid_face (A_grid (mgrid s)) (dimx s) (dimy s) (dimz s) n)
                      (axis_neighbors c)
           in if nb = [] then face_vel (mgrid s) n c
              else sum_list (map (face_vel (mgrid s) n) nb) / real (length nb))) \<and>
     (\<forall>n c. valid_face (A_grid (mgrid s)) (dimx s) (dimy s) (dimz s) n c \<or>
             \<not> wall_face (A_grid (mgrid s)) (dimx s) (dimy s) (dimz s) n c \<longrightarrow>
        face_vel (mgrid (extrapolateVelocity s)) n c = face_vel (mgrid s) n c)"
proof -
  let ?a = "A_grid (mgrid s)" and ?x = "dimx s" and ?y = "dimy s" and ?z = "dimz s"
  assume "?x < 4294967295 \<and> ?y < 4294967295 \<and> ?z < 4294967295"
  then have d: "?x < 4294967295" "?y < 4294967295" "?z < 4294967295"
    by simp_all
  have 1: "face_vel (mgrid (extrapolateVelocity s)) n c =
          (let nb = filter (valid_face ?a ?x ?y ?z n) (axis_neighbors c)
           in if nb = [] then face_vel (mgrid s) n c
              else sum_list (map (face_vel (mgrid s) n) nb) / real (length nb))"
    if nv: "\<not> valid_face ?a ?x ?y ?z n c" and w: "wall_face ?a ?x ?y ?z n c" for n c
  proof -
    have sw: "swept ?x ?y ?z n c"
      by (rule wall_face_swept [OF d w])
    have "face_in_range ?x ?y ?z n c"
      using w by (cases c) (auto simp: wall_face_def)
    then have vn: "valid_neighbors ?a ?x ?y ?z n c
                     = filter (valid_face ?a ?x ?y ?z n) (axis_neighbors c)"
      by (rule valid_neighbors_axis [OF d])
    show ?thesis
      unfolding extrapolateVelocity_faces extrap_writes_def extrap_value_def vn Let_def
      using sw nv w by simp
  qed
  have 2: "face_vel (mgrid (extrapolateVelocity s)) n c = face_vel (mgrid s) n c"
    if "valid_face ?a ?x ?y ?z n c \<or> \<not> wall_face ?a ?x ?y ?z n c" for n c
    unfolding extrapolateVelocity_faces extrap_writes_def using that by auto
  from 1 2 show ?thesis by blast
qed

theorem extrapolateVelocity_wall_faces_witness:
  "(dimx sim_wall < 4294967295 \<and> dimy sim_wall < 4294967295 \<and> dimz sim_wall < 4294967295) \<and>
   \<not> valid_face (A_grid (mgrid sim_wall)) (dimx sim_wall) (dimy sim_wall) (dimz sim_wall)
       0 (2, 0, 0) \<and>
   wall_face (A_grid (mgrid sim_wall)) (dimx sim_wall) (dimy sim_wall) (dimz sim_wall)
       0 (2, 0, 0) \<and>
   valid_face (A_grid (mgrid sim_wall)) (dimx sim_wall) (dimy sim_wall) (dimz sim_wall)
       0 (1, 0, 0) \<and>
   face_vel (mgrid (extrapolateVelocity sim_wall)) 0 (2, 0, 0) = 1 \<and>
   face_vel (mgrid (extrapolateVelocity sim_wall)) 0 (1, 0, 0) = 1"
proof -
  have a': "A_grid (mgrid sim_wall) = (newgrid AIR)((0, 0, 0) := FLUID, (1, 0, 0) := SOLID)"
    and u': "u_x (mgrid sim_wall) = (newgrid 0)((1, 0, 0) := 1)"
    by (simp_all add: sim_wall_def macgrid0_def)
  have d: "dimx sim_wall < 4294967295 \<and> dimy sim_wall < 4294967295 \<and>
           dimz sim_wall < 4294967295"
    by (simp add: sim_wall_dims)
  have nv: "\<not> valid_face (A_grid (mgrid sim_wall)) (dimx sim_wall) (dimy sim_wall)
              (dimz sim_wall) 0 (2, 0, 0)"
    unfolding a' sim_wall_dims by (simp add: valid_face_def face_in_range_def newgrid_def)
  have w: "wall_face (A_grid (mgrid sim_wall)) (dimx sim_wall) (dimy sim_wall) (dimz sim_wall)
             0 (2, 0, 0)"
    unfolding a' sim_wall_dims by (simp add: wall_face_def face_in_range_def newgrid_def)
  have v: "valid_face (A_grid (mgrid sim_wall)) (dimx sim_wall) (dimy sim_wall)
              (dimz sim_wall) 0 (1, 0, 0)"
    unfolding a' sim_wall_dims by (simp add: valid_face_def face_in_range_def newgrid_def)
  have nb: "filter (valid_face (A_grid (mgrid sim_wall)) (dimx sim_wall) (dimy sim_wall)
             (dimz sim_wall) 0) (axis_neighbors (2, 0, 0)) = [(1, 0, 0)]"
    unfolding a' sim_wall_dims
    by (simp add: axis_neighbors_def valid_face_def face_in_range_def newgrid_def)
  note t = extrapolateVelocity_wall_faces [OF d]
  have 1: "face_vel (mgrid (extrapolateVelocity sim_wall)) 0 (2, 0, 0) = 1"
    using t [THEN conjunct1, rule_format, of 0 "(2, 0, 0)"] nv w
    unfolding nb Let_def by (simp add: face_vel_def u')
  have 2: "face_vel (mgrid (extrapolateVelocity sim_wall)) 0 (1, 0, 0) = 1"
    using t [THEN conjunct2, rule_format, of 0 "(1, 0, 0)"] v
    by (simp add: face_vel_def u')
  from d nv w v 1 2 show ?thesis by blast
qed

subsection \<open>extrapolateVelocity is idempotent (C9)\<close>

text \<open>
  C9: extrapolateVelocity is idempotent. For every simulator state (every MAC grid and
  cell-type grid), running it twice in a row yields the state, and so the face
  velocities \<open>u_x, u_y, u_z\<close>, that running it once yields.
\<close>

theorem extrapolateVelocity_idempotent:
  "extrapolateVelocity (extrapolateVelocity s) = extrapolateVelocity s"
proof -
  let ?s1 = "extrapolateVelocity s"
  let ?a = "A_grid (mgrid s)" and ?x = "dimx s" and ?y = "dimy s" and ?z = "dimz s"
  have dims: "dimx ?s1 = ?x" "dimy ?s1 = ?y" "dimz ?s1 = ?z"
    by (simp_all add: dimx_def dimy_def dimz_def extrapolateVelocity_def Let_def
        case_prod_unfold)
  have a: "A_grid (mgrid ?s1) = ?a"
    by (rule extrapolateVelocity_rest)
  have keep: "face_vel (mgrid ?s1) n q = face_vel (mgrid s) n q"
    if "valid_face ?a ?x ?y ?z n q" for n q
    unfolding extrapolateVelocity_faces extrap_writes_def using that by simp
  have val: "extrap_value ?a ?x ?y ?z (mgrid ?s1) n c = extrap_value ?a ?x ?y ?z (mgrid s) n c"
    for n c
    by (rule extrap_value_cong) (rule keep)
  have fv: "face_vel (mgrid (extrapolateVelocity ?s1)) n c = face_vel (mgrid ?s1) n c" for n c
    unfolding extrapolateVelocity_faces [of ?s1] dims a val
    unfolding extrapolateVelocity_faces [of s] by simp
  have "u_x (mgrid (extrapolateVelocity ?s1)) = u_x (mgrid ?s1)"
    using fv [of 0] by (auto simp: face_vel_def fun_eq_iff)
  moreover have "u_y (mgrid (extrapolateVelocity ?s1)) = u_y (mgrid ?s1)"
    using fv [of 1] by (auto simp: face_vel_def fun_eq_iff)
  moreover have "u_z (mgrid (extrapolateVelocity ?s1)) = u_z (mgrid ?s1)"
    using fv [of 2] by (auto simp: face_vel_def fun_eq_iff)
  ultimately have "mgrid (extrapolateVelocity ?s1) = mgrid ?s1"
    by (intro macgrid.equality) (simp_all add: extrapolateVelocity_rest)
  then show ?thesis
    using extrapolateVelocity_frame [of ?s1] by simp
qed

theorem extrapolateVelocity_idempotent_witness:
  "extrapolateVelocity (extrapolateVelocity sim_wall) = extrapolateVelocity sim_wall \<and>
   extrapolateVelocity (extrapolateVelocity sim_band) = extrapolateVelocity sim_band"
  using extrapolateVelocity_idempotent [of sim_wall] extrapolateVelocity_idempotent [of sim_band]
  by simp

subsection \<open>Marking invalid particles (C7)\<close>

text \<open>
  C7, as stated: after the marking phase a particle is invalid if and only if its
  position lies outside the unit cube or its cell is SOLID, for every grid, cubic or
  not. On a 4 x 2 x 2 grid the particle at \<open>(0.5, 0.75, 0.5)\<close> lies in the unit cube,
  \<open>mgrid.A\<close> holds no SOLID cell, and the particle is marked invalid: the loop
  compares \<open>p * maxd = (2, 3, 2)\<close> with the dimensions \<open>(4, 2, 2)\<close>.
\<close>

theorem mark_invalid_unit_cube_counterexample:
  "in_unit_cube (p_p (particles sim_flat ! 0)) \<and>
   getCellv (A_grid (mgrid sim_flat)) (vscale (p_p (particles sim_flat ! 0)) (maxd sim_flat))
     \<noteq> SOLID \<and>
   p_p (particles (mark_invalid sim_flat) ! 0) = p_p (particles sim_flat ! 0) \<and>
   p_invalid (particles (mark_invalid sim_flat) ! 0)"
  by (simp add: sim_flat_def sim0_def flipsim_new_def particle0_def macgrid0_def newgrid_def
      mark_invalid_def in_unit_cube_def getCellv_def getCell_def vscale_def maxd_def Let_def)

lemma cube_outside:
  assumes "vx dims = vy dims" "vy dims = vz dims" "0 < vx dims"
  shows "outside_box dims (vscale v (max (max (vx dims) (vz dims)) (vy dims)))
           \<longleftrightarrow> \<not> in_unit_cube v"
proof -
  let ?d = "vx dims"
  have m: "max (max (vx dims) (vz dims)) (vy dims) = ?d"
    using assms by simp
  have gt: "a * ?d > ?d \<longleftrightarrow> a > 1" for a
    using assms(3) by (simp add: mult_less_cancel_right2 less_le_not_le mult_le_cancel_right1)
  have lt: "a * ?d < 0 \<longleftrightarrow> a < 0" for a
    using assms(3) by (simp add: mult_less_0_iff not_less_iff_gr_or_eq)
  show ?thesis
    unfolding m outside_box_def in_unit_cube_def vscale_def vec3.sel
    using assms(1,2) gt lt by (auto simp: not_le)
qed

text \<open>
  C7, amended: after the marking phase a particle is invalid if and only if its scaled
  position \<open>p * max(X,Y,Z)\<close> lies outside the box \<open>[0,X] x [0,Y] x [0,Z]\<close> or
  \<open>mgrid.A\<close> holds SOLID at the cell of the scaled position; on a cubic grid
  (\<open>X = Y = Z > 0\<close>) that is: if and only if the position lies outside the unit cube or
  the cell is SOLID. The phase changes no other field of a particle.
\<close>

theorem mark_invalid_box:
  "i < length (particles s) \<Longrightarrow>
     (p_invalid (particles (mark_invalid s) ! i) \<longleftrightarrow>
        outside_box (dimensions s) (vscale (p_p (particles s ! i)) (maxd s)) \<or>
        getCellv (A_grid (mgrid s)) (vscale (p_p (particles s ! i)) (maxd s)) = SOLID) \<and>
     (vx (dimensions s) = vy (dimensions s) \<and> vy (dimensions s) = vz (dimensions s) \<and>
      0 < vx (dimensions s) \<longrightarrow>
        (p_invalid (particles (mark_invalid s) ! i) \<longleftrightarrow>
           \<not> in_unit_cube (p_p (particles s ! i)) \<or>
           getCellv (A_grid (mgrid s)) (vscale (p_p (particles s ! i)) (maxd s)) = SOLID)) \<and>
     particles (mark_invalid s) ! i =
       (particles s ! i)\<lparr>p_invalid := p_invalid (particles (mark_invalid s) ! i)\<rparr> \<and>
     length (particles (mark_invalid s)) = length (particles s)"
proof -
  assume i: "i < length (particles s)"
  have a: "p_invalid (particles (mark_invalid s) ! i) \<longleftrightarrow>
        outside_box (dimensions s) (vscale (p_p (particles s ! i)) (maxd s)) \<or>
        getCellv (A_grid (mgrid s)) (vscale (p_p (particles s ! i)) (maxd s)) = SOLID"
    using i by (auto simp: mark_invalid_def Let_def outside_box_def)
  have b: "p_invalid (particles (mark_invalid s) ! i) \<longleftrightarrow>
           \<not> in_unit_cube (p_p (particles s ! i)) \<or>
           getCellv (A_grid (mgrid s)) (vscale (p_p (particles s ! i)) (maxd s)) = SOLID"
    if "vx (dimensions s) = vy (dimensions s) \<and> vy (dimensions s) = vz (dimensions s) \<and>
      0 < vx (dimensions s)"
    unfolding a using cube_outside [of "dimensions s" "p_p (particles s ! i)"] that
    by (simp add: maxd_def)
  have c: "particles (mark_invalid s) ! i =
       (particles s ! i)\<lparr>p_invalid := p_invalid (particles (mark_invalid s) ! i)\<rparr>"
    using i by (simp add: mark_invalid_def Let_def)
  have d: "length (particles (mark_invalid s)) = length (particles s)"
    by (simp add: mark_invalid_def)
  from a b c d show ?thesis by blast
qed

theorem mark_invalid_box_witness:
  "0 < length (particles sim_flat) \<and>
   outside_box (dimensions sim_flat) (vscale (p_p (particles sim_flat ! 0)) (maxd sim_flat)) \<and>
   p_invalid (particles (mark_invalid sim_flat) ! 0) \<and>
   0 < length (particles (sim0\<lparr>particles := [particle0]\<rparr>)) \<and>
   in_unit_cube (p_p (particles (sim0\<lparr>particles := [particle0]\<rparr>) ! 0)) \<and>
   \<not> p_invalid (particles (mark_invalid (sim0\<lparr>particles := [particle0]\<rparr>)) ! 0)"
proof -
  have h: "0 < length (particles sim_flat)"
    by (simp add: sim_flat_def)
  have o: "outside_box (dimensions sim_flat)
             (vscale (p_p (particles sim_flat ! 0)) (maxd sim_flat))"
    by (simp add: sim_flat_def outside_box_def vscale_def maxd_def particle0_def)
  have 1: "p_invalid (particles (mark_invalid sim_flat) ! 0)"
    using mark_invalid_box [OF h, THEN conjunct1] o by simp
  have h': "0 < length (particles (sim0\<lparr>particles := [particle0]\<rparr>))"
    by simp
  have c: "in_unit_cube (p_p (particles (sim0\<lparr>particles := [particle0]\<rparr>) ! 0))"
    by (simp add: in_unit_cube_def particle0_def)
  have 2: "\<not> p_invalid (particles (mark_invalid (sim0\<lparr>particles := [particle0]\<rparr>)) ! 0)"
    using mark_invalid_box [OF h', THEN conjunct2, THEN conjunct1] c
    by (simp add: sim0_def flipsim_new_def macgrid0_def newgrid_def getCellv_def getCell_def)
  from h o 1 h' c 2 show ?thesis by blast
qed

subsection \<open>Pushing stuck particles out (C6)\<close>

lemma collect_stuck_eq:
  "collect_stuck ps md = (stuck_indices ps, map (\<lambda>i. vscale (p_p (ps ! i)) md) (stuck_indices ps))"
proof -
  have "fold (\<lambda>p (sp, spos).
             if p_invalid (ps ! p) \<and> p_type (ps ! p) = FLUID
             then (sp @ [p], spos @ [vscale (p_p (ps ! p)) md])
             else (sp, spos)) xs (a, b)
        = (a @ filter (\<lambda>i. p_invalid (ps ! i) \<and> p_type (ps ! i) = FLUID) xs,
           b @ map (\<lambda>i. vscale (p_p (ps ! i)) md)
                 (filter (\<lambda>i. p_invalid (ps ! i) \<and> p_type (ps ! i) = FLUID) xs))" for xs a b
    by (induction xs arbitrary: a b) auto
  then show ?thesis
    by (simp add: collect_stuck_def stuck_indices_def)
qed

lemma fold_update_distinct:
  assumes d: "distinct idx" and n: "n \<le> length idx"
    and r: "\<forall>p < n. idx ! p < length ps0"
  shows "length (fold (\<lambda>p ps. ps[idx ! p := F p (ps ! (idx ! p))]) [0..<n] ps0) = length ps0 \<and>
         (\<forall>p < n. fold (\<lambda>p ps. ps[idx ! p := F p (ps ! (idx ! p))]) [0..<n] ps0 ! (idx ! p)
                    = F p (ps0 ! (idx ! p))) \<and>
         (\<forall>a. a \<notin> set (take n idx) \<longrightarrow>
               fold (\<lambda>p ps. ps[idx ! p := F p (ps ! (idx ! p))]) [0..<n] ps0 ! a = ps0 ! a)"
  using n r
proof (induction n)
  case 0
  show ?case by simp
next
  case (Suc n)
  let ?body = "\<lambda>p ps. ps[idx ! p := F p (ps ! (idx ! p))]"
  let ?r = "fold ?body [0..<n] ps0"
  have ih: "length ?r = length ps0"
    "\<forall>p < n. ?r ! (idx ! p) = F p (ps0 ! (idx ! p))"
    "\<forall>a. a \<notin> set (take n idx) \<longrightarrow> ?r ! a = ps0 ! a"
    using Suc by simp_all
  have n: "n < length idx" using Suc.prems by simp
  have inr: "idx ! n < length ps0" using Suc.prems by simp
  have fresh: "idx ! n \<notin> set (take n idx)"
    using d n by (auto simp: in_set_conv_nth distinct_conv_nth)
  have ne: "idx ! p \<noteq> idx ! n" if "p < n" for p
    using d n that by (simp add: nth_eq_iff_index_eq)
  have step: "fold ?body [0..<Suc n] ps0 = ?r[idx ! n := F n (?r ! (idx ! n))]"
    by simp
  have old: "?r ! (idx ! n) = ps0 ! (idx ! n)"
    using ih(3) fresh by simp
  have tk: "set (take (Suc n) idx) = insert (idx ! n) (set (take n idx))"
    using n by (simp add: take_Suc_conv_app_nth)
  have inr': "idx ! n < length ?r"
    using inr ih(1) by simp
  have 1: "length (?r[idx ! n := F n (ps0 ! (idx ! n))]) = length ps0"
    using ih(1) by simp
  have 2: "?r[idx ! n := F n (ps0 ! (idx ! n))] ! (idx ! p) = F p (ps0 ! (idx ! p))"
    if "p < Suc n" for p
  proof (cases "p = n")
    case True
    then show ?thesis using inr' by simp
  next
    case False
    then have p: "p < n" using that by simp
    then have "idx ! n \<noteq> idx ! p" using ne [OF p] by simp
    then show ?thesis using ih(2) p by simp
  qed
  have 3: "?r[idx ! n := F n (ps0 ! (idx ! n))] ! a = ps0 ! a"
    if "a \<notin> insert (idx ! n) (set (take n idx))" for a
    using that ih(3) by simp
  show ?case
    unfolding step old tk using 1 2 3 by blast
qed

lemma push_stuck_particles:
  assumes len: "length (projectPointsToSolidSurface env (scene s)
                  (map (\<lambda>i. vscale (p_p (particles s ! i)) (maxd s)) (stuck_indices (particles s))))
                = length (stuck_indices (particles s))"
  shows "length (particles (push_stuck env s)) = length (particles s)"
    and "\<And>k. k < length (stuck_indices (particles s)) \<Longrightarrow>
           particles (push_stuck env s) ! (stuck_indices (particles s) ! k) =
             penalty (maxd s)
               (projectPointsToSolidSurface env (scene s)
                  (map (\<lambda>i. vscale (p_p (particles s ! i)) (maxd s))
                     (stuck_indices (particles s))) ! k)
               (particles s ! (stuck_indices (particles s) ! k))"
    and "\<And>a. a \<notin> set (stuck_indices (particles s)) \<Longrightarrow>
           particles (push_stuck env s) ! a = particles s ! a"
proof -
  let ?idx = "stuck_indices (particles s)"
  let ?pos = "projectPointsToSolidSurface env (scene s)
                  (map (\<lambda>i. vscale (p_p (particles s ! i)) (maxd s)) ?idx)"
  let ?F = "\<lambda>p q. penalty (maxd s) (?pos ! p) q"
  have body: "(\<lambda>p ps.
                 if vlength (vsub (?pos ! p) (vscale (p_p (ps ! (?idx ! p))) (maxd s)))
                      > 1 / 10000
                 then
                   ps[?idx ! p := (ps ! (?idx ! p))
                        \<lparr>p_p := vdiv (?pos ! p) (maxd s),
                         p_u := vscale (vsub (?pos ! p)
                                          (vscale (p_p (ps ! (?idx ! p))) (maxd s))) 10\<rparr>]
                 else ps)
             = (\<lambda>p ps. ps[?idx ! p := ?F p (ps ! (?idx ! p))])"
    by (auto simp: fun_eq_iff penalty_def Let_def)
  have ps: "particles (push_stuck env s) =
              fold (\<lambda>p ps. ps[?idx ! p := ?F p (ps ! (?idx ! p))]) [0..<length ?idx] (particles s)"
    unfolding push_stuck_def collect_stuck_eq prod.case Let_def body len by simp
  have d: "distinct ?idx"
    by (simp add: stuck_indices_def)
  have r: "\<forall>p < length ?idx. ?idx ! p < length (particles s)"
  proof (intro allI impI)
    fix p assume "p < length ?idx"
    then have "?idx ! p \<in> set ?idx" by simp
    then show "?idx ! p < length (particles s)"
      by (simp add: stuck_indices_def)
  qed
  note f = fold_update_distinct [OF d le_refl r, where F = ?F]
  show "length (particles (push_stuck env s)) = length (particles s)"
    unfolding ps using f by simp
  show "\<And>k. k < length ?idx \<Longrightarrow>
           particles (push_stuck env s) ! (?idx ! k) = ?F k (particles s ! (?idx ! k))"
    unfolding ps using f by simp
  show "\<And>a. a \<notin> set ?idx \<Longrightarrow> particles (push_stuck env s) ! a = particles s ! a"
    unfolding ps using f by simp
qed

lemma vlength_x: "vlength (Vec3 a 0 0) = \<bar>a\<bar>"
  by (simp add: vlength_def dot_def)

lemma stuck_indices_single:
  "stuck_indices [q] = (if p_invalid q \<and> p_type q = FLUID then [0] else [])"
  by (simp add: stuck_indices_def)

text \<open>
  C6, as stated: a stuck particle whose projected point differs from its position is
  moved to the projected point and gets the velocity \<open>(projected - old) * 10 / dt\<close>.
  With \<open>dt = 0.005\<close>, a 4 x 4 x 4 grid and a stuck particle at \<open>(0.5, 0.5, 0.5)\<close>
  projected one cell along x, the velocity is \<open>(10, 0, 0)\<close>, not the
  \<open>(2000, 0, 0)\<close> (grid units) or \<open>(500, 0, 0)\<close> (positions) of the claim; and a
  projected point that differs by \<open>0.00001\<close> leaves the particle where it is.
\<close>

theorem push_stuck_stepsize_counterexample:
  "p_invalid (particles sim_stuck ! 0) \<and> p_type (particles sim_stuck ! 0) = FLUID \<and>
   stepsize sim_stuck = 5 / 1000 \<and>
   vscale (p_p (particles sim_stuck ! 0)) (maxd sim_stuck) = Vec3 2 2 2 \<and>
   projectPointsToSolidSurface env0 (scene sim_stuck) [Vec3 2 2 2] = [Vec3 3 2 2] \<and>
   p_p (particles (push_stuck env0 sim_stuck) ! 0) = Vec3 (3 / 4) (1 / 2) (1 / 2) \<and>
   p_u (particles (push_stuck env0 sim_stuck) ! 0) = Vec3 10 0 0 \<and>
   vscale (vsub (Vec3 3 2 2) (Vec3 2 2 2)) (10 / stepsize sim_stuck) = Vec3 2000 0 0 \<and>
   vscale (vsub (Vec3 (3 / 4) (1 / 2) (1 / 2)) (p_p (particles sim_stuck ! 0)))
     (10 / stepsize sim_stuck) = Vec3 500 0 0 \<and>
   projectPointsToSolidSurface env_near (scene sim_stuck) [Vec3 2 2 2]
     = [Vec3 (200001 / 100000) 2 2] \<and>
   p_p (particles (push_stuck env_near sim_stuck) ! 0) = Vec3 (1 / 2) (1 / 2) (1 / 2) \<and>
   p_u (particles (push_stuck env_near sim_stuck) ! 0) = Vec3 0 0 0"
proof -
  have ps: "particles sim_stuck = [particle0\<lparr>p_invalid := True\<rparr>]"
    and md: "maxd sim_stuck = 4" and dt: "stepsize sim_stuck = 5 / 1000"
    by (simp_all add: sim_stuck_def sim0_def flipsim_new_def maxd_def)
  have idx: "stuck_indices (particles sim_stuck) = [0]"
    unfolding ps stuck_indices_single by (simp add: particle0_def)
  have pos: "vscale (p_p (particles sim_stuck ! 0)) (maxd sim_stuck) = Vec3 2 2 2"
    unfolding ps md by (simp add: particle0_def vscale_def)
  have pr: "projectPointsToSolidSurface env0 (scene sim_stuck) [Vec3 2 2 2] = [Vec3 3 2 2]"
    by (simp add: env0_def vadd_def)
  have pr': "projectPointsToSolidSurface env_near (scene sim_stuck) [Vec3 2 2 2]
               = [Vec3 (200001 / 100000) 2 2]"
    by (simp add: env_near_def vadd_def)
  have lst: "map (\<lambda>i. vscale (p_p (particles sim_stuck ! i)) (maxd sim_stuck))
               (stuck_indices (particles sim_stuck)) = [Vec3 2 2 2]"
    unfolding idx using pos by simp
  have len0: "length (projectPointsToSolidSurface env0 (scene sim_stuck)
             (map (\<lambda>i. vscale (p_p (particles sim_stuck ! i)) (maxd sim_stuck))
                (stuck_indices (particles sim_stuck))))
     = length (stuck_indices (particles sim_stuck))"
    unfolding lst unfolding pr idx by simp
  have len1: "length (projectPointsToSolidSurface env_near (scene sim_stuck)
             (map (\<lambda>i. vscale (p_p (particles sim_stuck ! i)) (maxd sim_stuck))
                (stuck_indices (particles sim_stuck))))
     = length (stuck_indices (particles sim_stuck))"
    unfolding lst unfolding pr' idx by simp
  have k0: "0 < length (stuck_indices (particles sim_stuck))"
    unfolding idx by simp
  have new: "particles (push_stuck env0 sim_stuck) ! 0 =
               penalty 4 (Vec3 3 2 2) (particle0\<lparr>p_invalid := True\<rparr>)"
    using push_stuck_particles(2) [OF len0 k0]
    unfolding lst unfolding pr idx md by (simp add: ps)
  have new': "particles (push_stuck env_near sim_stuck) ! 0 =
               penalty 4 (Vec3 (200001 / 100000) 2 2) (particle0\<lparr>p_invalid := True\<rparr>)"
    using push_stuck_particles(2) [OF len1 k0]
    unfolding lst unfolding pr' idx md by (simp add: ps)
  have far: "penalty 4 (Vec3 3 2 2) (particle0\<lparr>p_invalid := True\<rparr>) =
               particle0\<lparr>p_invalid := True, p_p := Vec3 (3 / 4) (1 / 2) (1 / 2),
                           p_u := Vec3 10 0 0\<rparr>"
    by (simp add: penalty_def particle0_def vscale_def vsub_def vdiv_def vlength_x)
  have near: "penalty 4 (Vec3 (200001 / 100000) 2 2) (particle0\<lparr>p_invalid := True\<rparr>) =
               particle0\<lparr>p_invalid := True\<rparr>"
    by (simp add: penalty_def particle0_def vscale_def vsub_def vdiv_def vlength_x)
  have 1: "p_invalid (particles sim_stuck ! 0) \<and> p_type (particles sim_stuck ! 0) = FLUID"
    unfolding ps by (simp add: particle0_def)
  have 2: "p_p (particles (push_stuck env0 sim_stuck) ! 0) = Vec3 (3 / 4) (1 / 2) (1 / 2)"
    "p_u (particles (push_stuck env0 sim_stuck) ! 0) = Vec3 10 0 0"
    unfolding new far by simp_all
  have 3: "vscale (vsub (Vec3 3 2 2) (Vec3 2 2 2)) (10 / stepsize sim_stuck) = Vec3 2000 0 0"
    "vscale (vsub (Vec3 (3 / 4) (1 / 2) (1 / 2)) (p_p (particles sim_stuck ! 0)))
       (10 / stepsize sim_stuck) = Vec3 500 0 0"
    unfolding dt ps by (simp_all add: vscale_def vsub_def particle0_def)
  have 4: "p_p (particles (push_stuck env_near sim_stuck) ! 0) = Vec3 (1 / 2) (1 / 2) (1 / 2)"
    "p_u (particles (push_stuck env_near sim_stuck) ! 0) = Vec3 0 0 0"
    unfolding new' near by (simp_all add: particle0_def)
  from 1 dt pos pr 2 3 pr' 4 show ?thesis by blast
qed

text \<open>
  C6, amended: at the end of step, the \<open>k\<close>-th stuck particle (invalid and FLUID)
  whose projected point lies more than \<open>0.0001\<close> from its scaled position
  \<open>p * maxd\<close> gets the position \<open>projected / maxd\<close> and the velocity
  \<open>(projected - p * maxd) * 10\<close>, 10 being the wall penalty factor; the step size does
  not enter. A stuck particle within \<open>0.0001\<close> of its projected point, and every
  particle that is not stuck, is left as it is. (The scene returns as many points as
  it was given.)
\<close>

theorem push_stuck_penalty:
  "length (projectPointsToSolidSurface env (scene s)
             (map (\<lambda>i. vscale (p_p (particles s ! i)) (maxd s)) (stuck_indices (particles s))))
     = length (stuck_indices (particles s)) \<Longrightarrow>
   k < length (stuck_indices (particles s)) \<Longrightarrow>
   i = stuck_indices (particles s) ! k \<Longrightarrow>
   projected = projectPointsToSolidSurface env (scene s)
             (map (\<lambda>i. vscale (p_p (particles s ! i)) (maxd s))
                (stuck_indices (particles s))) ! k \<Longrightarrow>
     p_invalid (particles s ! i) \<and> p_type (particles s ! i) = FLUID \<and>
     (vlength (vsub projected (vscale (p_p (particles s ! i)) (maxd s))) > 1 / 10000 \<longrightarrow>
        particles (push_stuck env s) ! i =
          (particles s ! i)
            \<lparr>p_p := vdiv projected (maxd s),
             p_u := vscale (vsub projected (vscale (p_p (particles s ! i)) (maxd s))) 10\<rparr>) \<and>
     (\<not> vlength (vsub projected (vscale (p_p (particles s ! i)) (maxd s))) > 1 / 10000 \<longrightarrow>
        particles (push_stuck env s) ! i = particles s ! i) \<and>
     (\<forall>a. \<not> (a < length (particles s) \<and> p_invalid (particles s ! a) \<and>
               p_type (particles s ! a) = FLUID) \<longrightarrow>
          particles (push_stuck env s) ! a = particles s ! a) \<and>
     particles (push_stuck env (s\<lparr>stepsize := dt\<rparr>)) = particles (push_stuck env s)"
proof -
  let ?idx = "stuck_indices (particles s)"
  assume len: "length (projectPointsToSolidSurface env (scene s)
             (map (\<lambda>i. vscale (p_p (particles s ! i)) (maxd s)) ?idx)) = length ?idx"
    and k: "k < length ?idx" and i: "i = ?idx ! k"
    and q: "projected = projectPointsToSolidSurface env (scene s)
             (map (\<lambda>i. vscale (p_p (particles s ! i)) (maxd s)) ?idx) ! k"
  have "i \<in> set ?idx"
    using k i by simp
  then have 1: "p_invalid (particles s ! i) \<and> p_type (particles s ! i) = FLUID"
    by (simp add: stuck_indices_def)
  have new: "particles (push_stuck env s) ! i = penalty (maxd s) projected (particles s ! i)"
    unfolding i q by (rule push_stuck_particles(2) [OF len k])
  have 2: "vlength (vsub projected (vscale (p_p (particles s ! i)) (maxd s))) > 1 / 10000 \<longrightarrow>
        particles (push_stuck env s) ! i =
          (particles s ! i)
            \<lparr>p_p := vdiv projected (maxd s),
             p_u := vscale (vsub projected (vscale (p_p (particles s ! i)) (maxd s))) 10\<rparr>"
    unfolding new penalty_def by simp
  have 3: "\<not> vlength (vsub projected (vscale (p_p (particles s ! i)) (maxd s))) > 1 / 10000 \<longrightarrow>
        particles (push_stuck env s) ! i = particles s ! i"
    unfolding new penalty_def by simp
  have 4: "particles (push_stuck env s) ! a = particles s ! a"
    if "\<not> (a < length (particles s) \<and> p_invalid (particles s ! a) \<and>
               p_type (particles s ! a) = FLUID)" for a
  proof -
    have "a \<notin> set ?idx"
      using that by (auto simp: stuck_indices_def)
    then show ?thesis
      by (rule push_stuck_particles(3) [OF len])
  qed
  have 5: "particles (push_stuck env (s\<lparr>stepsize := dt\<rparr>)) = particles (push_stuck env s)"
    by (simp add: push_stuck_def maxd_def Let_def case_prod_unfold cong: if_cong)
  from 1 2 3 4 5 show ?thesis by blast
qed

theorem push_stuck_penalty_witness:
  "length (projectPointsToSolidSurface env0 (scene sim_stuck)
             (map (\<lambda>i. vscale (p_p (particles sim_stuck ! i)) (maxd sim_stuck))
                (stuck_indices (particles sim_stuck))))
     = length (stuck_indices (particles sim_stuck)) \<and>
   0 < length (stuck_indices (particles sim_stuck)) \<and>
   0 = stuck_indices (particles sim_stuck) ! 0 \<and>
   Vec3 3 2 2 = projectPointsToSolidSurface env0 (scene sim_stuck)
             (map (\<lambda>i. vscale (p_p (particles sim_stuck ! i)) (maxd sim_stuck))
                (stuck_indices (particles sim_stuck))) ! 0 \<and>
   vlength (vsub (Vec3 3 2 2) (vscale (p_p (particles sim_stuck ! 0)) (maxd sim_stuck)))
     > 1 / 10000 \<and>
   particles (push_stuck env0 sim_stuck) ! 0 =
     particle0\<lparr>p_invalid := True, p_p := Vec3 (3 / 4) (1 / 2) (1 / 2), p_u := Vec3 10 0 0\<rparr>"
proof -
  have ps: "particles sim_stuck = [particle0\<lparr>p_invalid := True\<rparr>]"
    and md: "maxd sim_stuck = 4"
    by (simp_all add: sim_stuck_def sim0_def flipsim_new_def maxd_def)
  have idx: "stuck_indices (particles sim_stuck) = [0]"
    unfolding ps stuck_indices_single by (simp add: particle0_def)
  have h1: "length (projectPointsToSolidSurface env0 (scene sim_stuck)
             (map (\<lambda>i. vscale (p_p (particles sim_stuck ! i)) (maxd sim_stuck))
                (stuck_indices (particles sim_stuck))))
     = length (stuck_indices (particles sim_stuck))"
    by (simp add: env0_def)
  have h2: "0 < length (stuck_indices (particles sim_stuck))"
    unfolding idx by simp
  have h3: "0 = stuck_indices (particles sim_stuck) ! 0"
    unfolding idx by simp
  have lst: "map (\<lambda>i. vscale (p_p (particles sim_stuck ! i)) (maxd sim_stuck))
               (stuck_indices (particles sim_stuck)) = [Vec3 2 2 2]"
    unfolding idx by (simp add: ps md particle0_def vscale_def)
  have h4: "Vec3 3 2 2 = projectPointsToSolidSurface env0 (scene sim_stuck)
             (map (\<lambda>i. vscale (p_p (particles sim_stuck ! i)) (maxd sim_stuck))
                (stuck_indices (particles sim_stuck))) ! 0"
    unfolding lst by (simp add: env0_def vadd_def)
  have far: "vlength (vsub (Vec3 3 2 2) (vscale (p_p (particles sim_stuck ! 0)) (maxd sim_stuck)))
     > 1 / 10000"
    unfolding ps md by (simp add: particle0_def vscale_def vsub_def vlength_x)
  note t = push_stuck_penalty [OF h1 h2 h3 h4, THEN conjunct2, THEN conjunct2,
      THEN conjunct1, rule_format, OF far]
  have "particles (push_stuck env0 sim_stuck) ! 0 =
     particle0\<lparr>p_invalid := True, p_p := Vec3 (3 / 4) (1 / 2) (1 / 2), p_u := Vec3 10 0 0\<rparr>"
    unfolding t ps md by (simp add: particle0_def vscale_def vsub_def vdiv_def)
  with h1 h2 h3 h4 far show ?thesis by blast
qed

subsection \<open>advectParticles (C8)\<close>

text \<open>
  C8, as stated: on return every FLUID particle lies in \<open>[h, 1 - h]^3\<close>, also the
  particles the wall response pushed after the clamp. On a 4 x 4 x 4 grid with
  density 2 (\<open>re = 0.75\<close>), a FLUID particle at \<open>(0.25, 0.5, 0.5)\<close> with a SOLID
  neighbour at \<open>(0.5, 0.5, 0.5)\<close> of normal \<open>(-1, 0, 0)\<close> is clamped to where it is
  and then pushed by \<open>re - dist = 0.5\<close> to \<open>x = -0.25\<close>: below \<open>h\<close> and below 0.
\<close>

theorem advectParticles_wall_response_counterexample:
  "p_type (particles (advectParticles env_wall sim_advect) ! 0) = FLUID \<and>
   maxd sim_advect = 4 \<and>
   p_p (particles (advectParticles env_wall sim_advect) ! 0) = Vec3 (- (1 / 4)) (1 / 2) (1 / 2) \<and>
   vx (p_p (particles (advectParticles env_wall sim_advect) ! 0)) < 0 \<and>
   \<not> in_wall_box (1 / maxd sim_advect)
       (p_p (particles (advectParticles env_wall sim_advect) ! 0))"
proof -
  have md: "maxd sim_advect = 4" and dn: "density sim_advect = 2"
    and dt: "stepsize sim_advect = 5 / 1000"
    and d: "dimx sim_advect = 4" "dimy sim_advect = 4" "dimz sim_advect = 4"
    and ps: "particles sim_advect = [particle0\<lparr>p_p := Vec3 (1 / 4) (1 / 2) (1 / 2)\<rparr>,
                         particle0\<lparr>p_type := SOLID, p_n := Vec3 (- 1) 0 0\<rparr>]"
    and mg: "mgrid sim_advect = macgrid0"
    by (simp_all add: sim_advect_def sim0_def flipsim_new_def maxd_def dimx_def dimy_def dimz_def)
  let ?f = "particle0\<lparr>p_p := Vec3 (1 / 4) (1 / 2) (1 / 2)\<rparr>"
  let ?w = "particle0\<lparr>p_type := SOLID, p_n := Vec3 (- 1) 0 0\<rparr>"
  have iv: "interpolateVelocity env_wall v macgrid0 = Vec3 0 0 0" for v
    by (simp add: env_wall_def env0_def macgrid0_def newgrid_def)
  have nb: "getCellNeighbors env_wall pg c r = [1]" for pg c r
    by (simp add: env_wall_def)
  have ps1: "map (\<lambda>q. if p_type q = FLUID
                          then (let velocity = interpolateVelocity env_wall (p_p q) macgrid0
                                in q\<lparr>p_p := vadd (p_p q) (smul (5 / 1000) velocity)\<rparr>)
                          else q) [?f, ?w] = [?f, ?w]"
    by (simp add: iv particle0_def vadd_def smul_def Let_def)
  have cl: "clamp_to_walls 4 (Vec3 (1 / 4) (1 / 2) (1 / 2)) = Vec3 (1 / 4) (1 / 2) (1 / 2)"
    by (simp add: clamp_to_walls_def vmax_def vmin_def vec3_of_def)
  have push: "push_from_solid 4 2 0 1 [?f, ?w] =
                [particle0\<lparr>p_p := Vec3 (- (1 / 4)) (1 / 2) (1 / 2)\<rparr>, ?w]"
    by (simp add: push_from_solid_def particle0_def vsub_def vadd_def smul_def dot_def
        vlength_x Let_def)
  have tf: "p_type particle0 = FLUID"
    by (simp add: particle0_def)
  have t0: "p_type ([?f, ?w] ! 0) = FLUID"
    by (simp add: tf)
  have up: "[?f, ?w][0 := ([?f, ?w] ! 0)\<lparr>p_p := clamp_to_walls 4 (p_p ([?f, ?w] ! 0))\<rparr>]
              = [?f, ?w]"
    by (simp add: cl)
  have c0: "constrain_particle env_wall pg 4 2 4 4 4 0 [?f, ?w] =
              [particle0\<lparr>p_p := Vec3 (- (1 / 4)) (1 / 2) (1 / 2)\<rparr>, ?w]" for pg
    unfolding constrain_particle_def Let_def nb t0 if_True up
    by (simp add: push tf del: One_nat_def)
  have t1: "p_type ([particle0\<lparr>p_p := Vec3 (- (1 / 4)) (1 / 2) (1 / 2)\<rparr>, ?w] ! Suc 0) \<noteq> FLUID"
    by simp
  have c1: "constrain_particle env_wall pg 4 2 4 4 4 (Suc 0)
              [particle0\<lparr>p_p := Vec3 (- (1 / 4)) (1 / 2) (1 / 2)\<rparr>, ?w] =
              [particle0\<lparr>p_p := Vec3 (- (1 / 4)) (1 / 2) (1 / 2)\<rparr>, ?w]" for pg
    unfolding constrain_particle_def Let_def using t1 by simp
  have res: "particles (advectParticles env_wall sim_advect) =
               [particle0\<lparr>p_p := Vec3 (- (1 / 4)) (1 / 2) (1 / 2)\<rparr>, ?w]"
    unfolding advectParticles_def md dn dt d ps mg
    by (simp add: Let_def tf iv vadd_def smul_def c0 c1)
  show ?thesis
    unfolding res md by (simp add: particle0_def in_wall_box_def)
qed

lemma push_from_solid_frame:
  "length (push_from_solid md dens p0 np ps) = length ps"
  "a \<noteq> p0 \<Longrightarrow> push_from_solid md dens p0 np ps ! a = ps ! a"
  "p_type (push_from_solid md dens p0 np ps ! a) = p_type (ps ! a)"
proof -
  show "length (push_from_solid md dens p0 np ps) = length ps"
    by (simp add: push_from_solid_def Let_def)
  show "a \<noteq> p0 \<Longrightarrow> push_from_solid md dens p0 np ps ! a = ps ! a"
    by (simp add: push_from_solid_def Let_def)
  show "p_type (push_from_solid md dens p0 np ps ! a) = p_type (ps ! a)"
  proof (cases "a = p0 \<and> p0 < length ps")
    case True
    then show ?thesis by (simp add: push_from_solid_def Let_def)
  next
    case False
    then show ?thesis
      by (auto simp: push_from_solid_def Let_def nth_list_update list_update_beyond not_less)
  qed
qed

lemma push_from_solid_far:
  "(p_type (ps ! np) = SOLID \<longrightarrow>
      15 / 10 * dens / md \<le> vlength (vsub (p_p (ps ! p0)) (p_p (ps ! np)))) \<Longrightarrow>
   push_from_solid md dens p0 np ps = ps"
  by (auto simp: push_from_solid_def Let_def)

lemma fold_push_frame:
  "length (fold (push_from_solid md dens p0) nbs ps) = length ps"
  "a \<noteq> p0 \<Longrightarrow> fold (push_from_solid md dens p0) nbs ps ! a = ps ! a"
  "p_type (fold (push_from_solid md dens p0) nbs ps ! a) = p_type (ps ! a)"
  by (induction nbs arbitrary: ps) (simp_all add: push_from_solid_frame)

lemma fold_push_far:
  "\<forall>np \<in> set nbs. p_type (ps ! np) = SOLID \<longrightarrow>
      15 / 10 * dens / md \<le> vlength (vsub (p_p (ps ! p0)) (p_p (ps ! np))) \<Longrightarrow>
   fold (push_from_solid md dens p0) nbs ps = ps"
  by (induction nbs) (simp_all add: push_from_solid_far)

lemma update_type:
  "p_type q = p_type (ps ! p0) \<Longrightarrow> p_type (ps[p0 := q] ! a) = p_type (ps ! a)"
proof (cases "a = p0 \<and> p0 < length ps")
  case True
  assume "p_type q = p_type (ps ! p0)"
  with True show ?thesis by simp
next
  case False
  then show ?thesis
    by (auto simp: nth_list_update list_update_beyond not_less)
qed

lemma constrain_particle_frame:
  "length (constrain_particle env pg md dens x y z p0 ps) = length ps"
  "a \<noteq> p0 \<Longrightarrow> constrain_particle env pg md dens x y z p0 ps ! a = ps ! a"
  "p_type (constrain_particle env pg md dens x y z p0 ps ! a) = p_type (ps ! a)"
  "p_type (ps ! p0) \<noteq> FLUID \<Longrightarrow> constrain_particle env pg md dens x y z p0 ps = ps"
proof -
  show "length (constrain_particle env pg md dens x y z p0 ps) = length ps"
    by (simp add: constrain_particle_def Let_def fold_push_frame)
  show "a \<noteq> p0 \<Longrightarrow> constrain_particle env pg md dens x y z p0 ps ! a = ps ! a"
    by (simp add: constrain_particle_def Let_def fold_push_frame)
  show "p_type (constrain_particle env pg md dens x y z p0 ps ! a) = p_type (ps ! a)"
    by (simp add: constrain_particle_def Let_def fold_push_frame update_type)
  show "p_type (ps ! p0) \<noteq> FLUID \<Longrightarrow> constrain_particle env pg md dens x y z p0 ps = ps"
    by (simp add: constrain_particle_def Let_def)
qed

lemma constrain_particle_solid:
  "p_type (ps ! a) = SOLID \<Longrightarrow> constrain_particle env pg md dens x y z p0 ps ! a = ps ! a"
  by (cases "a = p0") (simp_all add: constrain_particle_frame)

lemma fold_constrain_frame:
  "a \<notin> set js \<Longrightarrow>
     fold (constrain_particle env pg md dens x y z) js ps ! a = ps ! a"
  by (induction js arbitrary: ps) (simp_all add: constrain_particle_frame)

lemma fold_constrain_nth:
  assumes "distinct js" and "i \<in> set js"
  shows "\<exists>ps'. length ps' = length ps \<and> (\<forall>a. p_type (ps' ! a) = p_type (ps ! a)) \<and>
               (\<forall>a. p_type (ps ! a) = SOLID \<longrightarrow> ps' ! a = ps ! a) \<and> ps' ! i = ps ! i \<and>
               fold (constrain_particle env pg md dens x y z) js ps ! i =
                 constrain_particle env pg md dens x y z i ps' ! i"
  using assms
proof (induction js arbitrary: ps)
  case Nil
  then show ?case by simp
next
  case (Cons j js)
  let ?C = "constrain_particle env pg md dens x y z"
  show ?case
  proof (cases "j = i")
    case True
    then have "i \<notin> set js" using Cons.prems by simp
    then have "fold ?C (j # js) ps ! i = ?C i ps ! i"
      using True by (simp add: fold_constrain_frame)
    then show ?thesis by blast
  next
    case False
    then have i: "i \<in> set js" and d: "distinct js"
      using Cons.prems by simp_all
    from Cons.IH [OF d i, of "?C j ps"]
    obtain ps' where ps': "length ps' = length (?C j ps)"
      "\<forall>a. p_type (ps' ! a) = p_type (?C j ps ! a)"
      "\<forall>a. p_type (?C j ps ! a) = SOLID \<longrightarrow> ps' ! a = ?C j ps ! a"
      "ps' ! i = ?C j ps ! i"
      "fold ?C js (?C j ps) ! i = ?C i ps' ! i"
      by blast
    have 1: "length ps' = length ps"
      using ps'(1) by (simp add: constrain_particle_frame)
    have 2: "\<forall>a. p_type (ps' ! a) = p_type (ps ! a)"
      using ps'(2) by (simp add: constrain_particle_frame)
    have 3: "\<forall>a. p_type (ps ! a) = SOLID \<longrightarrow> ps' ! a = ps ! a"
      using ps'(3) by (simp add: constrain_particle_frame constrain_particle_solid)
    have 4: "ps' ! i = ps ! i"
      using ps'(4) False by (simp add: constrain_particle_frame)
    have 5: "fold ?C (j # js) ps ! i = ?C i ps' ! i"
      using ps'(5) by simp
    from 1 2 3 4 5 show ?thesis by blast
  qed
qed

lemma clamp_in_box:
  assumes "2 \<le> md"
  shows "in_wall_box (1 / md) (clamp_to_walls md v)"
proof -
  have "1 / md \<le> 1 / 2"
    using assms by (simp add: field_simps)
  then have "1 / md \<le> 1 - 1 / md"
    by simp
  then show ?thesis
    by (auto simp: in_wall_box_def clamp_to_walls_def Let_def vmax_def vmin_def vec3_of_def)
qed

text \<open>
  C8, amended: when \<open>max(X,Y,Z) \<ge> 2\<close>, a FLUID particle that the wall response does
  not push (each neighbour of its cell is a particle of the list, and no SOLID
  neighbour lies within \<open>re = 1.5 * density / max(X,Y,Z)\<close> of the clamped position)
  is, when advectParticles returns, at its advected position clamped into
  \<open>[h, 1 - h]^3\<close>, \<open>h = 1 / max(X,Y,Z)\<close>, and so inside that box.
\<close>

theorem advectParticles_clamped:
  "i < length (particles s) \<Longrightarrow> p_type (particles s ! i) = FLUID \<Longrightarrow> 2 \<le> maxd s \<Longrightarrow>
   moved = vadd (p_p (particles s ! i))
             (smul (stepsize s) (interpolateVelocity env (p_p (particles s ! i)) (mgrid s))) \<Longrightarrow>
   \<forall>np \<in> set (getCellNeighbors env (pgrid (advectParticles env s))
                  (particle_cell (dimx s) (dimy s) (dimz s) (maxd s)
                     (clamp_to_walls (maxd s) moved))
                  (vec3_of 1)).
      np < length (particles s) \<and>
      (p_type (particles s ! np) = SOLID \<longrightarrow>
         15 / 10 * density s / maxd s \<le>
           vlength (vsub (clamp_to_walls (maxd s) moved) (p_p (particles s ! np)))) \<Longrightarrow>
     p_p (particles (advectParticles env s) ! i) = clamp_to_walls (maxd s) moved \<and>
     in_wall_box (1 / maxd s) (p_p (particles (advectParticles env s) ! i)) \<and>
     p_type (particles (advectParticles env s) ! i) = FLUID"
proof -
  let ?md = "maxd s" and ?x = "dimx s" and ?y = "dimy s" and ?z = "dimz s"
  let ?f = "\<lambda>q. if p_type q = FLUID
                then (let velocity = interpolateVelocity env (p_p q) (mgrid s)
                      in q\<lparr>p_p := vadd (p_p q) (smul (stepsize s) velocity)\<rparr>)
                else q"
  let ?ps1 = "map ?f (particles s)"
  let ?pg = "sort_pgrid env (pgrid s) ?ps1"
  let ?C = "constrain_particle env ?pg ?md (density s) ?x ?y ?z"
  let ?c = "clamp_to_walls ?md moved"
  let ?nbs = "getCellNeighbors env ?pg (particle_cell ?x ?y ?z ?md ?c) (vec3_of 1)"
  assume i: "i < length (particles s)" and fl: "p_type (particles s ! i) = FLUID"
    and md: "2 \<le> ?md"
    and mv: "moved = vadd (p_p (particles s ! i))
             (smul (stepsize s) (interpolateVelocity env (p_p (particles s ! i)) (mgrid s)))"
    and H: "\<forall>np \<in> set (getCellNeighbors env (pgrid (advectParticles env s))
                  (particle_cell ?x ?y ?z ?md ?c) (vec3_of 1)).
      np < length (particles s) \<and>
      (p_type (particles s ! np) = SOLID \<longrightarrow>
         15 / 10 * density s / ?md \<le> vlength (vsub ?c (p_p (particles s ! np))))"
  have pg: "pgrid (advectParticles env s) = ?pg"
    by (simp add: advectParticles_def Let_def)
  have res: "particles (advectParticles env s) = fold ?C [0..<length (particles s)] ?ps1"
    by (simp add: advectParticles_def Let_def)
  have ty1: "p_type (?ps1 ! a) = p_type (particles s ! a)" if "a < length (particles s)" for a
    using that by (simp add: Let_def)
  have so1: "?ps1 ! a = particles s ! a"
    if "a < length (particles s)" "p_type (particles s ! a) = SOLID" for a
    using that by simp
  have p1: "?ps1 ! i = (particles s ! i)\<lparr>p_p := moved\<rparr>"
    using i fl by (simp add: Let_def mv)
  from fold_constrain_nth [of "[0..<length (particles s)]" i ?ps1 env ?pg ?md "density s" ?x ?y ?z]
  obtain ps' where ps': "length ps' = length ?ps1"
    "\<forall>a. p_type (ps' ! a) = p_type (?ps1 ! a)"
    "\<forall>a. p_type (?ps1 ! a) = SOLID \<longrightarrow> ps' ! a = ?ps1 ! a"
    "ps' ! i = ?ps1 ! i"
    "fold ?C [0..<length (particles s)] ?ps1 ! i = ?C i ps' ! i"
    using i by auto
  have il: "i < length ps'"
    using ps'(1) i by simp
  have fl': "p_type (ps' ! i) = FLUID"
    using ps'(2) ty1 [OF i] fl by simp
  let ?q = "(ps' ! i)\<lparr>p_p := clamp_to_walls ?md (p_p (ps' ! i))\<rparr>"
  let ?ps2 = "ps'[i := ?q]"
  have cq: "p_p ?q = ?c"
    using ps'(4) p1 by simp
  have q2: "?ps2 ! i = ?q"
    using il by simp
  have far: "\<forall>np \<in> set ?nbs. p_type (?ps2 ! np) = SOLID \<longrightarrow>
               15 / 10 * density s / ?md \<le> vlength (vsub (p_p (?ps2 ! i)) (p_p (?ps2 ! np)))"
  proof (intro ballI impI)
    fix np
    assume np: "np \<in> set ?nbs" and so: "p_type (?ps2 ! np) = SOLID"
    have npl: "np < length (particles s)"
      and Hn: "p_type (particles s ! np) = SOLID \<longrightarrow>
         15 / 10 * density s / ?md \<le> vlength (vsub ?c (p_p (particles s ! np)))"
      using H np unfolding pg by auto
    have ne: "np \<noteq> i"
      using so q2 fl' by auto
    then have same: "?ps2 ! np = ps' ! np"
      by simp
    then have "p_type (?ps1 ! np) = SOLID"
      using so ps'(2) by simp
    then have s1: "p_type (particles s ! np) = SOLID" and e1: "ps' ! np = ?ps1 ! np"
      using ty1 [OF npl] ps'(3) by simp_all
    have "?ps2 ! np = particles s ! np"
      using same e1 so1 [OF npl s1] by simp
    then show "15 / 10 * density s / ?md \<le> vlength (vsub (p_p (?ps2 ! i)) (p_p (?ps2 ! np)))"
      using Hn s1 q2 cq by simp
  qed
  have nb: "getCellNeighbors env ?pg (particle_cell ?x ?y ?z ?md (p_p (?ps2 ! i))) (vec3_of 1)
              = ?nbs"
    using q2 cq by simp
  have a: "(if p_type (ps' ! i) = FLUID then ?ps2 else ps') = ?ps2"
    using fl' by simp
  have b: "p_type (?ps2 ! i) = FLUID"
    unfolding q2 using fl' by simp
  have "?C i ps' =
          fold (push_from_solid ?md (density s) i)
            (getCellNeighbors env ?pg (particle_cell ?x ?y ?z ?md (p_p (?ps2 ! i))) (vec3_of 1))
            ?ps2"
    unfolding constrain_particle_def Let_def a using b by (simp only: simp_thms if_True)
  also have "\<dots> = fold (push_from_solid ?md (density s) i) ?nbs ?ps2"
    unfolding nb ..
  also have "\<dots> = ?ps2"
    by (rule fold_push_far [OF far])
  finally have "?C i ps' = ?ps2" .
  then have fin: "particles (advectParticles env s) ! i = ?q"
    unfolding res ps'(5) using q2 by simp
  have 1: "p_p (particles (advectParticles env s) ! i) = ?c"
    unfolding fin by (rule cq)
  have 2: "in_wall_box (1 / ?md) (p_p (particles (advectParticles env s) ! i))"
    unfolding 1 by (rule clamp_in_box [OF md])
  have 3: "p_type (particles (advectParticles env s) ! i) = FLUID"
    unfolding fin using fl' by simp
  from 1 2 3 show ?thesis by blast
qed


theorem advectParticles_clamped_witness:
  "0 < length (particles sim_far) \<and> p_type (particles sim_far ! 0) = FLUID \<and>
   p_type (particles sim_far ! 1) = SOLID \<and> 2 \<le> maxd sim_far \<and>
   getCellNeighbors env_wall (pgrid (advectParticles env_wall sim_far))
     (particle_cell (dimx sim_far) (dimy sim_far) (dimz sim_far) (maxd sim_far)
        (clamp_to_walls (maxd sim_far) (Vec3 (1 / 4) (1 / 2) (1 / 2)))) (vec3_of 1) = [1] \<and>
   p_p (particles (advectParticles env_wall sim_far) ! 0) = Vec3 (1 / 4) (1 / 2) (1 / 2) \<and>
   in_wall_box (1 / 4) (p_p (particles (advectParticles env_wall sim_far) ! 0))"
proof -
  have md: "maxd sim_far = 4" and dn: "density sim_far = 1 / 5"
    and dt: "stepsize sim_far = 5 / 1000"
    and ps: "particles sim_far = [particle0\<lparr>p_p := Vec3 (1 / 4) (1 / 2) (1 / 2)\<rparr>,
                         particle0\<lparr>p_type := SOLID, p_n := Vec3 (- 1) 0 0\<rparr>]"
    and mg: "mgrid sim_far = macgrid0"
    by (simp_all add: sim_far_def sim_advect_def sim0_def flipsim_new_def maxd_def)
  have tf: "p_type particle0 = FLUID" and pp: "p_p particle0 = Vec3 (1 / 2) (1 / 2) (1 / 2)"
    by (simp_all add: particle0_def)
  have iv: "interpolateVelocity env_wall v macgrid0 = Vec3 0 0 0" for v
    by (simp add: env_wall_def env0_def macgrid0_def newgrid_def)
  have nb: "getCellNeighbors env_wall pg c r = [1]" for pg c r
    by (simp add: env_wall_def)
  have cl: "clamp_to_walls 4 (Vec3 (1 / 4) (1 / 2) (1 / 2)) = Vec3 (1 / 4) (1 / 2) (1 / 2)"
    by (simp add: clamp_to_walls_def vmax_def vmin_def vec3_of_def)
  have h1: "0 < length (particles sim_far)"
    unfolding ps by simp
  have h2: "p_type (particles sim_far ! 0) = FLUID"
    unfolding ps by (simp add: tf)
  have h2': "p_type (particles sim_far ! 1) = SOLID"
    unfolding ps by simp
  have h3: "2 \<le> maxd sim_far"
    unfolding md by simp
  have h4: "Vec3 (1 / 4) (1 / 2) (1 / 2) = vadd (p_p (particles sim_far ! 0))
             (smul (stepsize sim_far)
                (interpolateVelocity env_wall (p_p (particles sim_far ! 0)) (mgrid sim_far)))"
    unfolding ps mg iv by (simp add: vadd_def smul_def)
  have h5: "\<forall>np \<in> set (getCellNeighbors env_wall (pgrid (advectParticles env_wall sim_far))
                  (particle_cell (dimx sim_far) (dimy sim_far) (dimz sim_far) (maxd sim_far)
                     (clamp_to_walls (maxd sim_far) (Vec3 (1 / 4) (1 / 2) (1 / 2))))
                  (vec3_of 1)).
      np < length (particles sim_far) \<and>
      (p_type (particles sim_far ! np) = SOLID \<longrightarrow>
         15 / 10 * density sim_far / maxd sim_far \<le>
           vlength (vsub (clamp_to_walls (maxd sim_far) (Vec3 (1 / 4) (1 / 2) (1 / 2)))
                      (p_p (particles sim_far ! np))))"
    unfolding nb md dn cl ps by (simp add: pp vsub_def vlength_x)
  note t = advectParticles_clamped [OF h1 h2 h3 h4 h5]
  have 1: "p_p (particles (advectParticles env_wall sim_far) ! 0) = Vec3 (1 / 4) (1 / 2) (1 / 2)"
    using t [THEN conjunct1] unfolding md cl .
  have 2: "in_wall_box (1 / 4) (p_p (particles (advectParticles env_wall sim_far) ! 0))"
    using t [THEN conjunct2, THEN conjunct1] unfolding md .
  from h1 h2 h2' h3 nb 1 2 show ?thesis by blast
qed

subsection \<open>The phases of step (C4)\<close>














lemma computeDensity_solid:
  "i < length (particles t) \<Longrightarrow> p_type (particles t ! i) = SOLID \<Longrightarrow>
     particles (computeDensity env t) ! i = (particles t ! i)\<lparr>p_density := Finite 1\<rparr>"
  by (simp add: computeDensity_def)

lemma computeDensity_before_init:
  "i < length (particles t) \<Longrightarrow> p_type (particles t ! i) \<noteq> SOLID \<Longrightarrow> max_density t = 0 \<Longrightarrow>
     p_density (particles (computeDensity env t) ! i) \<noteq> Finite x"
  by (simp add: computeDensity_def Let_def fdiv_def)



end
